theory Spec2Isabelle
  imports Main
begin

section \<open>JavaScript values\<close>

text \<open>
  Request payloads, stored documents and responses are JSON-like JavaScript values.
  A string is a list of code units; \<^typ>\<open>char\<close> has 256 values, so the model covers the
  strings whose code units lie below 256 (Latin-1), where \<open>length\<close> is JavaScript's
  \<open>.length\<close>. Numbers are restricted to integer values: \<open>JNum n\<close> stands for the Number that
  JavaScript makes of the integer \<open>n\<close>, which is the nearest double (\<open>n\<close> itself up to \<open>2^53\<close>
  in magnitude); a timestamp is a number (milliseconds). An object is the list of its own
  properties in insertion order.
\<close>

datatype jsval =
    JUndefined
  | JNull
  | JBool bool
  | JNum int
  | JStr string
  | JArr "jsval list"
  | JObj "(string \<times> jsval) list"

type_synonym jsobj = "(string \<times> jsval) list"

text \<open>\<open>obj.k\<close>: reading a property that the object does not have yields \<open>undefined\<close>.\<close>

definition getProp :: "jsobj \<Rightarrow> string \<Rightarrow> jsval" where
  "getProp obj k = (case map_of obj k of Some v \<Rightarrow> v | None \<Rightarrow> JUndefined)"

text \<open>\<open>obj.k = v\<close>: overwrite the property in place, or append it as the newest one.\<close>

fun setProp :: "jsobj \<Rightarrow> string \<Rightarrow> jsval \<Rightarrow> jsobj" where
  "setProp [] k v = [(k, v)]"
| "setProp ((k', v') # ps) k v = (if k' = k then (k, v) # ps else (k', v') # setProp ps k v)"

text \<open>Truthiness, as \<open>if (x)\<close>, \<open>x ? a : b\<close> and \<open>x || y\<close> test it.\<close>

fun truthy :: "jsval \<Rightarrow> bool" where
  "truthy JUndefined = False"
| "truthy JNull = False"
| "truthy (JBool b) = b"
| "truthy (JNum n) = (n \<noteq> 0)"
| "truthy (JStr s) = (s \<noteq> [])"
| "truthy (JArr xs) = True"
| "truthy (JObj ps) = True"

definition jsOr :: "jsval \<Rightarrow> jsval \<Rightarrow> jsval" where
  "jsOr a b = (if truthy a then a else b)"

subsection \<open>Strings\<close>

text \<open>
  The code units below 256 that \<open>String.prototype.trim\<close> (and the regular expression
  class \<open>\s\<close>) treat as white space: TAB, LF, VT, FF, CR, SPACE and NO-BREAK SPACE.
\<close>

definition isWhiteSpace :: "char \<Rightarrow> bool" where
  "isWhiteSpace c = (c \<in> set [CHR 0x09, CHR 0x0A, CHR 0x0B, CHR 0x0C, CHR 0x0D, CHR 0x20, CHR 0xA0])"

definition trimStart :: "string \<Rightarrow> string" where
  "trimStart s = dropWhile isWhiteSpace s"

definition trimEnd :: "string \<Rightarrow> string" where
  "trimEnd s = rev (dropWhile isWhiteSpace (rev s))"

definition trim :: "string \<Rightarrow> string" where
  "trim s = trimEnd (trimStart s)"

text \<open>\<open>s.replace(/[<>]/g, '')\<close>: every \<open><\<close> and \<open>>\<close> is removed.\<close>

definition stripAngle :: "string \<Rightarrow> string" where
  "stripAngle s = filter (\<lambda>c. c \<noteq> CHR ''<'' \<and> c \<noteq> CHR ''>'') s"

text \<open>\<open>xs.join(sep)\<close> on a list of strings.\<close>

fun join :: "string \<Rightarrow> string list \<Rightarrow> string" where
  "join sep [] = []"
| "join sep [x] = x"
| "join sep (x # y # ys) = x @ sep @ join sep (y # ys)"

section \<open>The validator utilities (utils/validators.js)\<close>

text \<open>\<open>validStatuses.includes(status)\<close>: strict equality with one of the four strings.\<close>

definition isValidStatus :: "jsval \<Rightarrow> bool" where
  "isValidStatus status =
     (status \<in> set [JStr ''open'', JStr ''in-progress'', JStr ''resolved'', JStr ''closed''])"

definition isValidPriority :: "jsval \<Rightarrow> bool" where
  "isValidPriority priority =
     (priority \<in> set [JStr ''low'', JStr ''medium'', JStr ''high'', JStr ''critical''])"

text \<open>
  \<open>sanitizeInput\<close>: a value that is not a string is returned as it is; a string is
  trimmed, loses its angle brackets and is cut to its first 1000 code units, in this order.
\<close>

definition sanitizeInput :: "jsval \<Rightarrow> jsval" where
  "sanitizeInput input =
     (case input of
        JStr s \<Rightarrow> JStr (take 1000 (stripAngle (trim s)))
      | _ \<Rightarrow> input)"

text \<open>
  \<open>formatBugResponse\<close>: an object literal with ten keys, each read from the bug document.
\<close>

definition formatBugResponse :: "jsobj \<Rightarrow> jsobj" where
  "formatBugResponse bug =
     [(''id'', getProp bug ''_id''),
      (''title'', getProp bug ''title''),
      (''description'', getProp bug ''description''),
      (''status'', getProp bug ''status''),
      (''priority'', getProp bug ''priority''),
      (''reporter'', getProp bug ''reporter''),
      (''assignedTo'', getProp bug ''assignedTo''),
      (''tags'', getProp bug ''tags''),
      (''createdAt'', getProp bug ''createdAt''),
      (''updatedAt'', getProp bug ''updatedAt'')]"


section \<open>Requests, errors and outcomes\<close>

text \<open>
  The part of an Express request that the routes read: the route parameters, the parsed
  query string and the parsed body. A route parameter is a string. A query parameter is a
  string when the query string gives it once, an array when it gives it several times, and
  an array or an object when it uses the bracket syntax of the query parser.
\<close>

record request =
  req_params :: jsobj
  req_query :: jsobj
  req_body :: jsobj

text \<open>
  An error object thrown by the storage collaborator (Mongoose and the database driver):
  its \<open>name\<close>, its \<open>message\<close> and, on a Mongoose \<open>ValidationError\<close>, the \<open>errors\<close> object that
  maps each failing path to an error with a \<open>message\<close>.
\<close>

record storage_error =
  err_name :: string
  err_message :: string
  err_errors :: "(string \<times> string) list option"

datatype js_error =
    AppError string nat
  | StorageError storage_error
  | TypeError string

text \<open>\<open>AppError\<close> extends \<open>Error\<close> and sets no name of its own.\<close>

fun error_name :: "js_error \<Rightarrow> string" where
  "error_name (AppError m c) = ''Error''"
| "error_name (StorageError e) = err_name e"
| "error_name (TypeError m) = ''TypeError''"

fun error_errors :: "js_error \<Rightarrow> (string \<times> string) list option" where
  "error_errors (StorageError e) = err_errors e"
| "error_errors (AppError m c) = None"
| "error_errors (TypeError m) = None"

text \<open>
  What a middleware or controller does with a request: it answers
  (\<open>res.status(n).json(body)\<close>), it hands an error to the error handler (\<open>next(err)\<close>), or an
  exception escapes it.
\<close>

datatype outcome =
    Response nat jsobj
  | NextErr js_error
  | Unhandled js_error

text \<open>
  Modelled from the spec: \<open>middleware/errorHandler.js\<close> is not among the sources. The spec
  classifies an error that carries a status code (an \<open>AppError\<close>) by that code, and every
  other error as a server error (500); the README's sketch of the handler reads
  \<open>err.statusCode = err.statusCode || 500\<close>.
\<close>

fun errorStatus :: "js_error \<Rightarrow> nat" where
  "errorStatus (AppError m c) = (if c = 0 then 500 else c)"
| "errorStatus (StorageError e) = 500"
| "errorStatus (TypeError m) = 500"

section \<open>The validation middleware (middleware/validation.js)\<close>

subsection \<open>The validation chains of express-validator\<close>

text \<open>
  A chain names a field of the body or of the route parameters and lists sanitizers and
  validators; each validator below carries the message given to it by \<open>withMessage\<close>.
  The chain semantics is the library's documented one: \<open>optional()\<close> skips the whole chain
  when the field is \<open>undefined\<close>; a standard sanitizer or validator works on the string form
  of the value, and on each element when the value is an array; every failing validator
  adds its message (a chain does not stop at its first failure); sanitizers write the new
  value back into the request.
\<close>

datatype item =
    Optional
  | Trim
  | NotEmpty string
  | IsLength nat "nat option" string
  | IsIn "string list" string
  | IsArray string
  | IsMongoId string

datatype chain =
    body string "item list"
  | param string "item list"


definition digitChar :: "nat \<Rightarrow> char" where
  "digitChar d = ''0123456789'' ! d"

function showNat :: "nat \<Rightarrow> string" where
  "showNat n = (if n < 10 then [digitChar n] else showNat (n div 10) @ [digitChar (n mod 10)])"
  by pat_completeness auto
termination
  by (relation "measure id") auto

declare showNat.simps [simp del]

text \<open>
  \<open>Number.prototype.toString\<close> on the Number made of an integer. The integer is rounded to
  the nearest double: 53 significant bits, a tie goes to the even mantissa, and from
  \<open>2^1024\<close> on the result is \<open>Infinity\<close>. Of a double from \<open>2^53\<close> on, JavaScript prints the
  shortest decimal that still rounds to it (the nearest one, if several are as short):
  written out in full below \<open>10^21\<close>, and in exponent form from there on.
\<close>

function bitLength :: "nat \<Rightarrow> nat" where
  "bitLength n = (if n = 0 then 0 else Suc (bitLength (n div 2)))"
  by pat_completeness auto
termination
  by (relation "measure id") auto

declare bitLength.simps [simp del]

definition toDouble :: "nat \<Rightarrow> nat option" where
  "toDouble n =
     (if bitLength n \<le> 53 then Some n
      else
        (let e = bitLength n - 53; q = n div 2 ^ e; r = n mod 2 ^ e;
             m = (if 2 ^ e < 2 * r \<or> (2 * r = 2 ^ e \<and> odd q) then q + 1 else q)
         in if 2 ^ 1024 \<le> m * 2 ^ e then None else Some (m * 2 ^ e)))"

text \<open>
  Whether the integer \<open>v\<close> rounds to the double \<open>x\<close> (from \<open>2^53\<close> on): it lies between the
  midpoints to the neighbouring doubles, a midpoint itself counting when the mantissa of
  \<open>x\<close> is even. Below a power of two the doubles lie twice as close.
\<close>

definition roundsTo :: "nat \<Rightarrow> nat \<Rightarrow> bool" where
  "roundsTo x v =
     (let e = bitLength x - 53; m = x div 2 ^ e;
          below = (if m = 2 ^ 52 then 2 ^ (e - 1) else 2 ^ e)
      in (2 * x < 2 * v + below \<and> 2 * v < 2 * x + 2 ^ e)
         \<or> (even m \<and> (2 * v + below = 2 * x \<or> 2 * v = 2 * x + 2 ^ e)))"

text \<open>
  The shortest decimal: the multiple of the largest power of ten that rounds to \<open>x\<close>, and
  of the two multiples around \<open>x\<close> the nearer one.
\<close>

fun shortest :: "nat \<Rightarrow> nat \<Rightarrow> nat" where
  "shortest x 0 = x"
| "shortest x (Suc p) =
     (let u = 10 ^ Suc p; lo = (x div u) * u; hi = lo + u in
      if roundsTo x lo \<and> roundsTo x hi
      then (if x - lo < hi - x then lo
            else if hi - x < x - lo then hi
            else if even (x div u) then lo else hi)
      else if roundsTo x lo then lo
      else if roundsTo x hi then hi
      else shortest x p)"

definition shortestDecimal :: "nat \<Rightarrow> nat" where
  "shortestDecimal x = (if x \<le> 2 ^ 53 then x else shortest x (length (showNat x)))"

definition trimZeros :: "string \<Rightarrow> string" where
  "trimZeros s = rev (dropWhile (\<lambda>c. c = CHR ''0'') (rev s))"

definition showDouble :: "nat \<Rightarrow> string" where
  "showDouble v =
     (if v < 10 ^ 21 then showNat v
      else
        (let ds = showNat v; frac = trimZeros (tl ds) in
         hd ds # (if frac = [] then [] else CHR ''.'' # frac) @ ''e+'' @ showNat (length ds - 1)))"

definition numberToString :: "int \<Rightarrow> string" where
  "numberToString i =
     (let body = (case toDouble (nat \<bar>i\<bar>) of
                    None \<Rightarrow> ''Infinity''
                  | Some x \<Rightarrow> showDouble (shortestDecimal x))
      in if i < 0 then CHR ''-'' # body else body)"

text \<open>
  The string form of a value, on which the standard sanitizers and validators work:
  \<open>undefined\<close> and \<open>null\<close> become the empty string, an array is joined with commas, and
  an object gives \<open>[object Object]\<close>.
\<close>

primrec stringify :: "jsval \<Rightarrow> string" where
  "stringify JUndefined = []"
| "stringify JNull = []"
| "stringify (JBool b) = (if b then ''true'' else ''false'')"
| "stringify (JNum n) = numberToString n"
| "stringify (JStr s) = s"
| "stringify (JArr xs) = join '','' (map stringify xs)"
| "stringify (JObj ps) = ''[object Object]''"

definition elems :: "jsval \<Rightarrow> jsval list" where
  "elems v = (case v of JArr xs \<Rightarrow> xs | _ \<Rightarrow> [v])"

definition isArray :: "jsval \<Rightarrow> bool" where
  "isArray v = (case v of JArr xs \<Rightarrow> True | _ \<Rightarrow> False)"

definition isHexDigit :: "char \<Rightarrow> bool" where
  "isHexDigit c = (c \<in> set ''0123456789abcdefABCDEF'')"

text \<open>
  \<open>isMongoId\<close> of validator.js is \<open>isHexadecimal(str) && str.length === 24\<close>, and
  \<open>isHexadecimal\<close> tests the regular expression \<open>/^(0x|0h)?[0-9A-F]+$/i\<close>. So besides the
  strings of 24 hexadecimal digits it accepts the strings of 24 characters that consist of
  \<open>0x\<close> or \<open>0h\<close>, in either case, and 22 hexadecimal digits.
\<close>

definition hexDigits :: "string \<Rightarrow> bool" where
  "hexDigits s = (s \<noteq> [] \<and> list_all isHexDigit s)"

definition isHexadecimal :: "string \<Rightarrow> bool" where
  "isHexadecimal s =
     (hexDigits s \<or>
      (case s of
         c # c' # t \<Rightarrow> c = CHR ''0'' \<and> c' \<in> set ''xXhH'' \<and> hexDigits t
       | _ \<Rightarrow> False))"

definition isMongoId :: "string \<Rightarrow> bool" where
  "isMongoId s = (isHexadecimal s \<and> length s = 24)"

definition lengthOk :: "nat \<Rightarrow> nat option \<Rightarrow> string \<Rightarrow> bool" where
  "lengthOk lo hi s =
     (lo \<le> length s \<and> (case hi of None \<Rightarrow> True | Some h \<Rightarrow> length s \<le> h))"

text \<open>The messages a validator adds for a value: one for each element that fails it.\<close>

definition failing :: "(string \<Rightarrow> bool) \<Rightarrow> string \<Rightarrow> jsval \<Rightarrow> string list" where
  "failing ok msg v = map (\<lambda>x. msg) (filter (\<lambda>x. \<not> ok (stringify x)) (elems v))"

fun runItem :: "item \<Rightarrow> jsval \<Rightarrow> jsval \<times> string list" where
  "runItem Optional v = (v, [])"
| "runItem Trim v =
     ((case v of
         JArr xs \<Rightarrow> JArr (map (\<lambda>x. JStr (trim (stringify x))) xs)
       | _ \<Rightarrow> JStr (trim (stringify v))), [])"
| "runItem (NotEmpty msg) v = (v, failing (\<lambda>s. s \<noteq> []) msg v)"
| "runItem (IsLength lo hi msg) v = (v, failing (lengthOk lo hi) msg v)"
| "runItem (IsIn opts msg) v = (v, failing (\<lambda>s. s \<in> set opts) msg v)"
| "runItem (IsArray msg) v = (v, if isArray v then [] else [msg])"
| "runItem (IsMongoId msg) v = (v, failing isMongoId msg v)"

fun runItems :: "item list \<Rightarrow> jsval \<Rightarrow> jsval \<times> string list" where
  "runItems [] v = (v, [])"
| "runItems (i # items) v =
     (case runItem i v of (v', es) \<Rightarrow>
        (case runItems items v' of (v'', es') \<Rightarrow> (v'', es @ es')))"

definition runField :: "item list \<Rightarrow> jsval \<Rightarrow> jsval \<times> string list" where
  "runField items v =
     (if Optional \<in> set items \<and> v = JUndefined then (v, []) else runItems items v)"

text \<open>
  Running one chain as a middleware: the field is read, the chain runs, a changed value is
  written back, and the messages are what the chain contributes to \<open>validationResult(req)\<close>.
\<close>

fun runChain :: "chain \<Rightarrow> request \<Rightarrow> request \<times> string list" where
  "runChain (body f items) req =
     (case runField items (getProp (req_body req) f) of (v, es) \<Rightarrow>
        (if v = getProp (req_body req) f then req
         else req\<lparr>req_body := setProp (req_body req) f v\<rparr>, es))"
| "runChain (param f items) req =
     (case runField items (getProp (req_params req) f) of (v, es) \<Rightarrow>
        (if v = getProp (req_params req) f then req
         else req\<lparr>req_params := setProp (req_params req) f v\<rparr>, es))"

text \<open>
  An array of chains runs in order; the result is the request as the sanitizers left it and
  \<open>validationResult(req).array().map(err => err.msg)\<close>.
\<close>

fun runValidation :: "chain list \<Rightarrow> request \<Rightarrow> request \<times> string list" where
  "runValidation [] req = (req, [])"
| "runValidation (c # cs) req =
     (case runChain c req of (req', es) \<Rightarrow>
        (case runValidation cs req' of (req'', es') \<Rightarrow> (req'', es @ es')))"

subsection \<open>The rules\<close>

definition createBugValidation :: "chain list" where
  "createBugValidation =
     [body ''title''
        [Trim, NotEmpty ''Title is required'',
         IsLength 3 (Some 200) ''Title must be 3-200 characters''],
      body ''description''
        [Trim, NotEmpty ''Description is required'',
         IsLength 10 None ''Description must be at least 10 characters''],
      body ''priority''
        [Optional, IsIn [''low'', ''medium'', ''high'', ''critical''] ''Invalid priority''],
      body ''reporter''
        [Trim, NotEmpty ''Reporter name is required''],
      body ''assignedTo''
        [Optional, Trim],
      body ''tags''
        [Optional, IsArray ''Tags must be an array'']]"

definition updateBugValidation :: "chain list" where
  "updateBugValidation =
     [body ''title''
        [Optional, Trim, IsLength 3 (Some 200) ''Title must be 3-200 characters''],
      body ''description''
        [Optional, Trim, IsLength 10 None ''Description must be at least 10 characters''],
      body ''status''
        [Optional, IsIn [''open'', ''in-progress'', ''resolved'', ''closed''] ''Invalid status''],
      body ''priority''
        [Optional, IsIn [''low'', ''medium'', ''high'', ''critical''] ''Invalid priority''],
      body ''assignedTo''
        [Optional, Trim],
      body ''tags''
        [Optional, IsArray ''Tags must be an array'']]"

definition bugIdValidation :: "chain list" where
  "bugIdValidation = [param ''id'' [IsMongoId ''Invalid bug ID format'']]"

text \<open>
  \<open>validateRequest\<close>: with a non-empty validation result it calls \<open>next\<close> with an
  \<open>AppError\<close> of status 400 whose message joins all messages with a comma and a space;
  otherwise it calls \<open>next()\<close> (here: \<open>None\<close>), and the next handler of the route runs.
\<close>

definition validateRequest :: "string list \<Rightarrow> js_error option" where
  "validateRequest errorMessages =
     (if errorMessages \<noteq> [] then Some (AppError (join '', '' errorMessages) 400) else None)"


section \<open>The storage collaborator (models/Bug.js on Mongoose)\<close>

text \<open>
  The collection of bug documents, in insertion order. What a request handler takes from
  its environment: the clock; the identifier the driver generates for a new document; for
  the \<open>k\<close>-th storage call of the handler whether the database fails on its own (connection
  lost, timeout, ...) and with which error; the wording of the library's message for a
  value that cannot be cast to the type of a path; the store's reading of a filter condition
  that is not a string; and the order in which the store returns documents for a sort
  argument.
\<close>

type_synonym db = "jsobj list"

record env =
  now :: int
  freshId :: string
  faults :: "nat \<Rightarrow> storage_error option"
  castMessage :: "string \<Rightarrow> jsval \<Rightarrow> string"
  condition :: "string \<Rightarrow> jsval \<Rightarrow> storage_error + (jsobj \<Rightarrow> bool)"
  sortOrder :: "jsval \<Rightarrow> storage_error + (jsobj \<Rightarrow> jsobj \<Rightarrow> bool)"

subsection \<open>The schema\<close>

record path_schema =
  sp_required :: "string option"
  sp_trim :: bool
  sp_minlength :: "(nat \<times> string) option"
  sp_maxlength :: "(nat \<times> string) option"
  sp_enum :: "string list option"
  sp_default :: jsval

definition stringPath :: path_schema where
  "stringPath =
     \<lparr>sp_required = None, sp_trim = False, sp_minlength = None, sp_maxlength = None,
      sp_enum = None, sp_default = JUndefined\<rparr>"

text \<open>
  The six string paths of \<open>bugSchema\<close>. The path \<open>tags\<close> (an array of trimmed strings) and the
  timestamps \<open>createdAt\<close> and \<open>updatedAt\<close> (option \<open>timestamps: true\<close>) are handled by the
  operations below.
\<close>

definition bugSchema :: "(string \<times> path_schema) list" where
  "bugSchema =
     [(''title'', stringPath
         \<lparr>sp_required := Some ''Bug title is required'', sp_trim := True,
          sp_minlength := Some (3, ''Title must be at least 3 characters''),
          sp_maxlength := Some (200, ''Title cannot exceed 200 characters'')\<rparr>),
      (''description'', stringPath
         \<lparr>sp_required := Some ''Bug description is required'', sp_trim := True,
          sp_minlength := Some (10, ''Description must be at least 10 characters'')\<rparr>),
      (''status'', stringPath
         \<lparr>sp_enum := Some [''open'', ''in-progress'', ''resolved'', ''closed''],
          sp_default := JStr ''open''\<rparr>),
      (''priority'', stringPath
         \<lparr>sp_enum := Some [''low'', ''medium'', ''high'', ''critical''],
          sp_default := JStr ''medium''\<rparr>),
      (''reporter'', stringPath
         \<lparr>sp_required := Some ''Reporter name is required'', sp_trim := True\<rparr>),
      (''assignedTo'', stringPath \<lparr>sp_trim := True\<rparr>)]"

text \<open>
  Casting to the schema type \<open>String\<close>: \<open>null\<close> and \<open>undefined\<close> stay, numbers and booleans
  are printed, an object with a string \<open>_id\<close> stands for that \<open>_id\<close>, and arrays and other
  objects cannot be cast.
\<close>

fun castString :: "jsval \<Rightarrow> jsval option" where
  "castString JUndefined = Some JUndefined"
| "castString JNull = Some JNull"
| "castString (JStr s) = Some (JStr s)"
| "castString (JNum n) = Some (JStr (numberToString n))"
| "castString (JBool b) = Some (JStr (if b then ''true'' else ''false''))"
| "castString (JArr xs) = None"
| "castString (JObj ps) =
     (case getProp ps ''_id'' of
        JStr s \<Rightarrow> (if s \<noteq> [] then Some (JStr s) else None)
      | _ \<Rightarrow> None)"

definition applySetters :: "path_schema \<Rightarrow> jsval \<Rightarrow> jsval" where
  "applySetters sch v =
     (case v of JStr s \<Rightarrow> (if sp_trim sch then JStr (trim s) else JStr s) | _ \<Rightarrow> v)"

text \<open>
  The validators of a path, \<open>required\<close> first; the first failure is the path's error. Only
  \<open>required\<close> looks at an absent value.
\<close>

definition enumMessage :: "string \<Rightarrow> string \<Rightarrow> string" where
  "enumMessage p s = ''`'' @ s @ ''` is not a valid enum value for path `'' @ p @ ''`.''"

definition orElse :: "'a option \<Rightarrow> 'a option \<Rightarrow> 'a option" where
  "orElse a b = (case a of Some x \<Rightarrow> Some x | None \<Rightarrow> b)"

definition validatePath :: "string \<Rightarrow> path_schema \<Rightarrow> jsval \<Rightarrow> string option" where
  "validatePath p sch v =
     (case v of
        JStr s \<Rightarrow>
          orElse (if s = [] then sp_required sch else None)
         (orElse (case sp_minlength sch of
                    Some (n, m) \<Rightarrow> (if length s < n then Some m else None)
                  | None \<Rightarrow> None)
         (orElse (case sp_maxlength sch of
                    Some (n, m) \<Rightarrow> (if n < length s then Some m else None)
                  | None \<Rightarrow> None)
                 (case sp_enum sch of
                    Some vs \<Rightarrow> (if s \<in> set vs then None else Some (enumMessage p s))
                  | None \<Rightarrow> None)))
      | _ \<Rightarrow> sp_required sch)"

text \<open>
  The path \<open>tags\<close>: an absent value defaults to the empty array, a value that is not an
  array is wrapped into one, and each element is cast to a string and trimmed.
\<close>

definition castElems :: "jsval list \<Rightarrow> jsval option" where
  "castElems xs =
     (case those (map castString xs) of
        None \<Rightarrow> None
      | Some ys \<Rightarrow> Some (JArr (map (applySetters (stringPath\<lparr>sp_trim := True\<rparr>)) ys)))"

definition castTags :: "jsval \<Rightarrow> jsval option" where
  "castTags v =
     (case v of
        JUndefined \<Rightarrow> Some (JArr [])
      | JNull \<Rightarrow> Some JNull
      | JArr xs \<Rightarrow> castElems xs
      | _ \<Rightarrow> castElems [v])"

text \<open>
  The error objects of Mongoose. The message of a \<open>CastError\<close> quotes the value as the
  library prints it; its wording is taken from the environment. A \<open>CastError\<close> has no
  \<open>errors\<close> object.
\<close>

definition validationError :: "string \<Rightarrow> (string \<times> string) list \<Rightarrow> js_error" where
  "validationError prefix es =
     StorageError
       \<lparr>err_name = ''ValidationError'',
        err_message = prefix @ join '', '' (map (\<lambda>(p, m). p @ '': '' @ m) es),
        err_errors = Some es\<rparr>"

definition castError :: "env \<Rightarrow> string \<Rightarrow> jsval \<Rightarrow> js_error" where
  "castError e p v =
     StorageError \<lparr>err_name = ''CastError'', err_message = castMessage e p v, err_errors = None\<rparr>"

subsection \<open>Identifiers\<close>

text \<open>
  The identifier of a document is written as 24 hexadecimal digits and compared without
  regard to the case of the digits; stored documents carry it in lower case. A string of 24
  characters is cast to an identifier if and only if all of them are hexadecimal digits,
  and every identifier that passes \<open>isMongoId\<close> has 24 characters; any other value is
  treated as a cast failure.
\<close>

definition lowerHex :: "char \<Rightarrow> char" where
  "lowerHex c =
     (if c = CHR ''A'' then CHR ''a'' else if c = CHR ''B'' then CHR ''b''
      else if c = CHR ''C'' then CHR ''c'' else if c = CHR ''D'' then CHR ''d''
      else if c = CHR ''E'' then CHR ''e'' else if c = CHR ''F'' then CHR ''f'' else c)"

definition isObjectIdHex :: "string \<Rightarrow> bool" where
  "isObjectIdHex s = (length s = 24 \<and> list_all isHexDigit s)"

definition castObjectId :: "jsval \<Rightarrow> string option" where
  "castObjectId v =
     (case v of
        JStr s \<Rightarrow> (if isObjectIdHex s then Some (map lowerHex s) else None)
      | _ \<Rightarrow> None)"

definition hasId :: "string \<Rightarrow> jsobj \<Rightarrow> bool" where
  "hasId i d = (getProp d ''_id'' = JStr i)"

subsection \<open>Model.create\<close>

text \<open>
  One string path of a new document: the default fills an absent value, the value is cast,
  the setters run, and the validators run. \<open>Inl\<close> is the path's entry in the
  \<open>ValidationError\<close>.
\<close>

definition buildPath :: "env \<Rightarrow> jsobj \<Rightarrow> string \<times> path_schema \<Rightarrow> (string \<times> string) + (string \<times> jsval)" where
  "buildPath e data ps =
     (case ps of (p, sch) \<Rightarrow>
        (let v0 = (if getProp data p = JUndefined then sp_default sch else getProp data p) in
         case castString v0 of
           None \<Rightarrow> Inl (p, castMessage e p v0)
         | Some v \<Rightarrow>
             (case validatePath p sch (applySetters sch v) of
                Some m \<Rightarrow> Inl (p, m)
              | None \<Rightarrow> Inr (p, applySetters sch v))))"

definition buildTags :: "env \<Rightarrow> jsobj \<Rightarrow> (string \<times> string) + (string \<times> jsval)" where
  "buildTags e data =
     (case castTags (getProp data ''tags'') of
        None \<Rightarrow> Inl (''tags'', castMessage e ''tags'' (getProp data ''tags''))
      | Some v \<Rightarrow> Inr (''tags'', v))"

definition lefts :: "('a + 'b) list \<Rightarrow> 'a list" where
  "lefts xs = concat (map (\<lambda>x. case x of Inl a \<Rightarrow> [a] | Inr b \<Rightarrow> []) xs)"

definition rights :: "('a + 'b) list \<Rightarrow> 'b list" where
  "rights xs = concat (map (\<lambda>x. case x of Inl a \<Rightarrow> [] | Inr b \<Rightarrow> [b]) xs)"

definition isDefined :: "string \<times> jsval \<Rightarrow> bool" where
  "isDefined kv = (snd kv \<noteq> JUndefined)"

text \<open>
  The document is built and validated in the process; only a valid document is sent to
  the database, and only then can the database fail.
\<close>

definition Bug_create :: "env \<Rightarrow> nat \<Rightarrow> jsobj \<Rightarrow> db \<Rightarrow> (js_error + jsobj) \<times> db" where
  "Bug_create e k data d =
     (let built = map (buildPath e data) bugSchema @ [buildTags e data] in
      if lefts built \<noteq> [] then (Inl (validationError ''Bug validation failed: '' (lefts built)), d)
      else
        (case faults e k of
           Some err \<Rightarrow> (Inl (StorageError err), d)
         | None \<Rightarrow>
             (let doc = filter isDefined
                          ([(''_id'', JStr (freshId e))] @ rights built @
                           [(''createdAt'', JNum (now e)), (''updatedAt'', JNum (now e))])
              in (Inr doc, d @ [doc]))))"

subsection \<open>Queries\<close>

text \<open>The identifier is cast in the process, before the database is asked.\<close>

definition Bug_findById :: "env \<Rightarrow> nat \<Rightarrow> jsval \<Rightarrow> db \<Rightarrow> js_error + jsobj option" where
  "Bug_findById e k i d =
     (case castObjectId i of
        None \<Rightarrow> Inl (castError e ''_id'' i)
      | Some oid \<Rightarrow>
          (case faults e k of
             Some err \<Rightarrow> Inl (StorageError err)
           | None \<Rightarrow> Inr (find (hasId oid) d)))"

text \<open>
  An equality condition on a path: the document has the string at the path, or it has an
  array there that contains the string.
\<close>

definition fieldIs :: "string \<Rightarrow> string \<Rightarrow> jsobj \<Rightarrow> bool" where
  "fieldIs k s doc =
     (case getProp doc k of
        JStr t \<Rightarrow> t = s
      | JArr xs \<Rightarrow> JStr s \<in> set xs
      | _ \<Rightarrow> False)"

text \<open>
  One condition of a filter on the paths \<open>status\<close> and \<open>priority\<close>. A string is an equality
  condition (the two paths have no setter that would change it). Any other value is read
  by the store: Mongoose turns an array into an \<open>$in\<close> condition over its elements and takes
  the \<open>$\<close>-keys of an object for query operators, and either may fail to cast. The
  environment gives the documents that such a condition selects, or the error.
\<close>

definition findCondition :: "env \<Rightarrow> string \<times> jsval \<Rightarrow> storage_error + (jsobj \<Rightarrow> bool)" where
  "findCondition e kv =
     (case kv of (k, v) \<Rightarrow>
        (case v of
           JStr s \<Rightarrow> Inr (fieldIs k s)
         | _ \<Rightarrow> condition e k v))"

text \<open>
  \<open>.sort(sortBy)\<close>: which arguments the library and the database accept, and how the
  database orders the documents for an argument, is the store's business. The environment
  gives, for the argument, the error with which the store refuses it or the order, \<open>lt a b\<close>
  saying that \<open>a\<close> has to come before \<open>b\<close>. Documents that the order does not separate stay
  in the order of the collection.
\<close>

fun insertSorted :: "('a \<Rightarrow> 'a \<Rightarrow> bool) \<Rightarrow> 'a \<Rightarrow> 'a list \<Rightarrow> 'a list" where
  "insertSorted lt x [] = [x]"
| "insertSorted lt x (y # ys) = (if lt y x then y # insertSorted lt x ys else x # y # ys)"

definition sortWith :: "('a \<Rightarrow> 'a \<Rightarrow> bool) \<Rightarrow> 'a list \<Rightarrow> 'a list" where
  "sortWith lt xs = foldr (insertSorted lt) xs []"

text \<open>
  \<open>Bug.find(query).sort(sortBy)\<close>, awaited: the sort argument is read first, the filter is
  cast when the query is executed, and then the database is asked. The result holds the
  documents that satisfy every condition of the filter.
\<close>

definition Bug_find :: "env \<Rightarrow> nat \<Rightarrow> jsobj \<Rightarrow> jsval \<Rightarrow> db \<Rightarrow> js_error + jsobj list" where
  "Bug_find e k query sortBy d =
     (case sortOrder e sortBy of
        Inl err \<Rightarrow> Inl (StorageError err)
      | Inr lt \<Rightarrow>
          (case lefts (map (findCondition e) query) of
             err # errs \<Rightarrow> Inl (StorageError err)
           | [] \<Rightarrow>
               (case faults e k of
                  Some err \<Rightarrow> Inl (StorageError err)
                | None \<Rightarrow>
                    Inr (sortWith lt
                           (filter (\<lambda>doc. list_all (\<lambda>sel. sel doc) (rights (map (findCondition e) query)))
                              d)))))"

text \<open>
  \<open>aggregate([{ $group: { _id: '$field', count: { $sum: 1 } } }])\<close>: one output document
  \<open>{_id, count}\<close> for each distinct value of the field, a document without the field
  counting under \<open>null\<close>. The database does not promise an order of the groups; here each
  group stands where its value occurs last.
\<close>

definition groupKey :: "string \<Rightarrow> jsobj \<Rightarrow> jsval" where
  "groupKey field doc = (if getProp doc field = JUndefined then JNull else getProp doc field)"

definition groupCount :: "string \<Rightarrow> jsobj list \<Rightarrow> jsobj list" where
  "groupCount field docs =
     map (\<lambda>v. [(''_id'', v), (''count'', JNum (int (length (filter (\<lambda>doc. groupKey field doc = v) docs))))])
         (remdups (map (groupKey field) docs))"

definition Bug_aggregate :: "env \<Rightarrow> nat \<Rightarrow> string \<Rightarrow> db \<Rightarrow> js_error + jsobj list" where
  "Bug_aggregate e k field d =
     (case faults e k of
        Some err \<Rightarrow> Inl (StorageError err)
      | None \<Rightarrow> Inr (groupCount field d))"

subsection \<open>Model.findByIdAndUpdate and Model.findByIdAndDelete\<close>

record update_options =
  opt_new :: bool
  opt_runValidators :: bool

text \<open>
  One entry of the update object: a key that is not a path of the schema is dropped
  (strict mode), a value for a string path is cast and passed through the setters, and
  \<open>tags\<close> is cast as an array. A value that cannot be cast makes the call fail with a
  \<open>CastError\<close> (\<open>Inl\<close>: the path and the value).
\<close>

definition castUpdate :: "string \<times> jsval \<Rightarrow> (string \<times> jsval) + (string \<times> jsval) list" where
  "castUpdate kv =
     (case kv of (k, v) \<Rightarrow>
        (if v = JUndefined then Inr []
         else if k = ''tags'' then
           (case castTags v of None \<Rightarrow> Inl (k, v) | Some v' \<Rightarrow> Inr [(k, v')])
         else
           (case map_of bugSchema k of
              None \<Rightarrow> Inr []
            | Some sch \<Rightarrow>
                (case castString v of
                   None \<Rightarrow> Inl (k, v)
                 | Some v' \<Rightarrow> Inr [(k, applySetters sch v')]))))"

text \<open>With \<open>runValidators\<close>, the validators of each string path that the update sets.\<close>

definition updateFailures :: "(string \<times> jsval) list \<Rightarrow> (string \<times> string) list" where
  "updateFailures sets =
     concat (map (\<lambda>kv. case map_of bugSchema (fst kv) of
                          None \<Rightarrow> []
                        | Some sch \<Rightarrow>
                            (case validatePath (fst kv) sch (snd kv) of
                               None \<Rightarrow> []
                             | Some m \<Rightarrow> [(fst kv, m)])) sets)"

definition applySets :: "(string \<times> jsval) list \<Rightarrow> jsobj \<Rightarrow> jsobj" where
  "applySets sets doc = fold (\<lambda>kv acc. setProp acc (fst kv) (snd kv)) sets doc"

fun replaceFirst :: "('a \<Rightarrow> bool) \<Rightarrow> 'a \<Rightarrow> 'a list \<Rightarrow> 'a list" where
  "replaceFirst P y [] = []"
| "replaceFirst P y (x # xs) = (if P x then y # xs else x # replaceFirst P y xs)"

fun removeFirst :: "('a \<Rightarrow> bool) \<Rightarrow> 'a list \<Rightarrow> 'a list" where
  "removeFirst P [] = []"
| "removeFirst P (x # xs) = (if P x then xs else x # removeFirst P xs)"

text \<open>
  The identifier and the update object are cast and the update validators run in the
  process; only then is the database asked.
\<close>

definition Bug_findByIdAndUpdate ::
    "env \<Rightarrow> nat \<Rightarrow> jsval \<Rightarrow> jsobj \<Rightarrow> update_options \<Rightarrow> db \<Rightarrow> (js_error + jsobj option) \<times> db" where
  "Bug_findByIdAndUpdate e k i updates opts d =
     (case castObjectId i of
        None \<Rightarrow> (Inl (castError e ''_id'' i), d)
      | Some oid \<Rightarrow>
          (let casts = map castUpdate updates; sets = concat (rights casts) in
           case lefts casts of
             pv # pvs \<Rightarrow> (Inl (castError e (fst pv) (snd pv)), d)
           | [] \<Rightarrow>
               (if opt_runValidators opts \<and> updateFailures sets \<noteq> []
                then (Inl (validationError ''Validation failed: '' (updateFailures sets)), d)
                else
                  (case faults e k of
                     Some err \<Rightarrow> (Inl (StorageError err), d)
                   | None \<Rightarrow>
                       (case find (hasId oid) d of
                          None \<Rightarrow> (Inr None, d)
                        | Some doc \<Rightarrow>
                            (let doc' = setProp (applySets sets doc) ''updatedAt'' (JNum (now e))
                             in (Inr (Some (if opt_new opts then doc' else doc)),
                                 replaceFirst (hasId oid) doc' d)))))))"

definition Bug_findByIdAndDelete :: "env \<Rightarrow> nat \<Rightarrow> jsval \<Rightarrow> db \<Rightarrow> (js_error + jsobj option) \<times> db" where
  "Bug_findByIdAndDelete e k i d =
     (case castObjectId i of
        None \<Rightarrow> (Inl (castError e ''_id'' i), d)
      | Some oid \<Rightarrow>
          (case faults e k of
             Some err \<Rightarrow> (Inl (StorageError err), d)
           | None \<Rightarrow> (Inr (find (hasId oid) d), removeFirst (hasId oid) d)))"

text \<open>An environment in which the database answers every call, for the examples below.\<close>

definition quietStore :: "int \<Rightarrow> string \<Rightarrow> env" where
  "quietStore t i =
     \<lparr>now = t, freshId = i, faults = (\<lambda>k. None),
      castMessage = (\<lambda>p v. ''Cast failed at path \"'' @ p @ ''\"''),
      condition = (\<lambda>k v. Inr (\<lambda>doc. False)),
      sortOrder = (\<lambda>sortBy. Inr (\<lambda>a b. False))\<rparr>"

section \<open>The controllers (controllers/bugController.js)\<close>

type_synonym controller = "request \<Rightarrow> env \<Rightarrow> db \<Rightarrow> outcome \<times> db"

definition success :: "(string \<times> jsval) list \<Rightarrow> jsobj" where
  "success rest = (''success'', JBool True) # rest"

text \<open>
  \<open>getAllBugs\<close>: \<open>status\<close>, \<open>priority\<close> and \<open>sortBy\<close> are read from the query, \<open>sortBy\<close> with
  the default \<open>-createdAt\<close> when it is \<open>undefined\<close>; the object \<open>query\<close> starts empty and
  receives \<open>status\<close> and \<open>priority\<close> as they are when they are truthy.
\<close>

definition getAllBugs :: controller where
  "getAllBugs req e d =
     (let status = getProp (req_query req) ''status'';
          priority = getProp (req_query req) ''priority'';
          sortBy = (if getProp (req_query req) ''sortBy'' = JUndefined then JStr ''-createdAt''
                    else getProp (req_query req) ''sortBy'');
          query = (if truthy status then [(''status'', status)] else []) @
                  (if truthy priority then [(''priority'', priority)] else [])
      in case Bug_find e 0 query sortBy d of
           Inl error \<Rightarrow> (NextErr error, d)
         | Inr bugs \<Rightarrow>
             (Response 200
                (success [(''count'', JNum (int (length bugs))),
                          (''data'', JArr (map (\<lambda>bug. JObj (formatBugResponse bug)) bugs))]),
              d))"

definition getBugById :: controller where
  "getBugById req e d =
     (case Bug_findById e 0 (getProp (req_params req) ''id'') d of
        Inl error \<Rightarrow> (NextErr error, d)
      | Inr None \<Rightarrow> (NextErr (AppError ''Bug not found'' 404), d)
      | Inr (Some bug) \<Rightarrow> (Response 200 (success [(''data'', JObj (formatBugResponse bug))]), d))"

text \<open>
  The \<open>catch\<close> block shared by \<open>createBug\<close> and \<open>updateBug\<close>: an error named
  \<open>ValidationError\<close> becomes an \<open>AppError\<close> of status 400 whose message joins the messages of
  \<open>Object.values(error.errors)\<close>; any other error is passed to \<open>next\<close> as it is. (Reading
  the values of a missing \<open>errors\<close> throws inside the \<open>catch\<close> block.)
\<close>

definition catchValidation :: "js_error \<Rightarrow> outcome" where
  "catchValidation error =
     (if error_name error = ''ValidationError''
      then (case error_errors error of
              Some es \<Rightarrow> NextErr (AppError (join '', '' (map snd es)) 400)
            | None \<Rightarrow> Unhandled (TypeError ''Cannot convert undefined or null to object''))
      else NextErr error)"

text \<open>The object \<open>bugData\<close> that \<open>createBug\<close> hands to \<open>Bug.create\<close>.\<close>

definition bugData :: "jsobj \<Rightarrow> jsobj" where
  "bugData b =
     [(''title'', sanitizeInput (getProp b ''title'')),
      (''description'', sanitizeInput (getProp b ''description'')),
      (''status'', jsOr (getProp b ''status'') (JStr ''open'')),
      (''priority'', jsOr (getProp b ''priority'') (JStr ''medium'')),
      (''reporter'', sanitizeInput (getProp b ''reporter'')),
      (''assignedTo'',
         (if truthy (getProp b ''assignedTo'') then sanitizeInput (getProp b ''assignedTo'')
          else JUndefined)),
      (''tags'', jsOr (getProp b ''tags'') (JArr []))]"

definition createBug :: controller where
  "createBug req e d =
     (case Bug_create e 0 (bugData (req_body req)) d of
        (Inr bug, d') \<Rightarrow> (Response 201 (success [(''data'', JObj (formatBugResponse bug))]), d')
      | (Inl error, d') \<Rightarrow> (catchValidation error, d'))"

text \<open>
  The object \<open>updates\<close> that \<open>updateBug\<close> hands to \<open>Bug.findByIdAndUpdate\<close>: it starts empty
  and receives one property for each of the six tests that succeeds, in this order.
\<close>

definition updates :: "jsobj \<Rightarrow> jsobj" where
  "updates b =
     (if truthy (getProp b ''title'') then [(''title'', sanitizeInput (getProp b ''title''))] else []) @
     (if truthy (getProp b ''description'')
      then [(''description'', sanitizeInput (getProp b ''description''))] else []) @
     (if truthy (getProp b ''status'') then [(''status'', getProp b ''status'')] else []) @
     (if truthy (getProp b ''priority'') then [(''priority'', getProp b ''priority'')] else []) @
     (if getProp b ''assignedTo'' \<noteq> JUndefined
      then [(''assignedTo'', sanitizeInput (getProp b ''assignedTo''))] else []) @
     (if truthy (getProp b ''tags'') then [(''tags'', getProp b ''tags'')] else [])"

definition updateBug :: controller where
  "updateBug req e d =
     (case Bug_findById e 0 (getProp (req_params req) ''id'') d of
        Inl error \<Rightarrow> (catchValidation error, d)
      | Inr None \<Rightarrow> (NextErr (AppError ''Bug not found'' 404), d)
      | Inr (Some bug) \<Rightarrow>
          (case Bug_findByIdAndUpdate e 1 (getProp (req_params req) ''id'')
                  (updates (req_body req)) \<lparr>opt_new = True, opt_runValidators = True\<rparr> d of
             (Inl error, d') \<Rightarrow> (catchValidation error, d')
           | (Inr None, d') \<Rightarrow>
               (catchValidation (TypeError ''Cannot read properties of null (reading _id)''), d')
           | (Inr (Some updatedBug), d') \<Rightarrow>
               (Response 200 (success [(''data'', JObj (formatBugResponse updatedBug))]), d')))"

definition deleteBug :: controller where
  "deleteBug req e d =
     (case Bug_findById e 0 (getProp (req_params req) ''id'') d of
        Inl error \<Rightarrow> (NextErr error, d)
      | Inr None \<Rightarrow> (NextErr (AppError ''Bug not found'' 404), d)
      | Inr (Some bug) \<Rightarrow>
          (case Bug_findByIdAndDelete e 1 (getProp (req_params req) ''id'') d of
             (Inl error, d') \<Rightarrow> (NextErr error, d')
           | (Inr r, d') \<Rightarrow>
               (Response 200 (success [(''message'', JStr ''Bug deleted successfully'')]), d')))"

definition getBugStats :: controller where
  "getBugStats req e d =
     (case Bug_aggregate e 0 ''status'' d of
        Inl error \<Rightarrow> (NextErr error, d)
      | Inr stats \<Rightarrow>
          (case Bug_aggregate e 1 ''priority'' d of
             Inl error \<Rightarrow> (NextErr error, d)
           | Inr priorityStats \<Rightarrow>
               (Response 200
                  (success [(''data'', JObj [(''byStatus'', JArr (map JObj stats)),
                                            (''byPriority'', JArr (map JObj priorityStats))])]),
                d)))"

section \<open>The router (routes/bugRoutes.js)\<close>

datatype verb = GET | POST | PUT | DELETE

text \<open>
  A route is registered for a verb and a path pattern, with its validation chains, which
  run in order and are followed by \<open>validateRequest\<close>, and its controller; the two routes
  without validation have no chain and no \<open>validateRequest\<close>.
\<close>

record route =
  route_verb :: verb
  route_path :: string
  chains :: "chain list"
  validated :: bool
  handler :: controller

definition statsRoute :: route where
  "statsRoute =
     \<lparr>route_verb = GET, route_path = ''/stats'', chains = [], validated = False,
      handler = getBugStats\<rparr>"

definition listRoute :: route where
  "listRoute =
     \<lparr>route_verb = GET, route_path = ''/'', chains = [], validated = False,
      handler = getAllBugs\<rparr>"

definition createRoute :: route where
  "createRoute =
     \<lparr>route_verb = POST, route_path = ''/'', chains = createBugValidation, validated = True,
      handler = createBug\<rparr>"

definition getRoute :: route where
  "getRoute =
     \<lparr>route_verb = GET, route_path = ''/:id'', chains = bugIdValidation, validated = True,
      handler = getBugById\<rparr>"

definition updateRoute :: route where
  "updateRoute =
     \<lparr>route_verb = PUT, route_path = ''/:id'', chains = bugIdValidation @ updateBugValidation,
      validated = True, handler = updateBug\<rparr>"

definition deleteRoute :: route where
  "deleteRoute =
     \<lparr>route_verb = DELETE, route_path = ''/:id'', chains = bugIdValidation, validated = True,
      handler = deleteBug\<rparr>"

text \<open>
  The routes of the router, in the order of their registration (\<open>/stats\<close> before \<open>/:id\<close>).
  Matching the path of a request against the patterns and filling \<open>req.params\<close> is the work
  of Express; a request is taken here together with the route that Express has selected
  for it, with \<open>req.params\<close>, \<open>req.query\<close> and \<open>req.body\<close> as Express and the body parsers
  have filled them.
\<close>

definition bugRoutes :: "route list" where
  "bugRoutes = [statsRoute, listRoute, createRoute, getRoute, updateRoute, deleteRoute]"

text \<open>
  Running a route: the chains run and may rewrite the request; \<open>validateRequest\<close> either
  ends the request with its error, and then the controller does not run, or lets the
  controller run on the request as the chains left it.
\<close>

definition runRoute :: "route \<Rightarrow> request \<Rightarrow> env \<Rightarrow> db \<Rightarrow> outcome \<times> db" where
  "runRoute r req e d =
     (case runValidation (chains r) req of (req', errorMessages) \<Rightarrow>
        (case (if validated r then validateRequest errorMessages else None) of
           Some err \<Rightarrow> (NextErr err, d)
         | None \<Rightarrow> handler r req' e d))"

text \<open>
  All violation messages of a request under a list of chains: the messages of every chain,
  each run on the incoming request, in the order of the chains.
\<close>

definition violations :: "chain list \<Rightarrow> request \<Rightarrow> string list" where
  "violations cs req = concat (map (\<lambda>c. snd (runChain c req)) cs)"

section \<open>Properties of the validator utilities\<close>

subsection \<open>Trimming\<close>

lemma trimStart_no_leading:
  "trimStart s = a # t \<Longrightarrow> \<not> isWhiteSpace a"
  unfolding trimStart_def by (metis dropWhile_eq_Cons_conv)

lemma trimEnd_keeps_head:
  assumes "\<not> isWhiteSpace a"
  shows "\<exists>u. trimEnd (a # t) = a # u"
proof -
  have "dropWhile isWhiteSpace (rev t @ [a]) =
        (if \<forall>x\<in>set (rev t). isWhiteSpace x then [a] else dropWhile isWhiteSpace (rev t) @ [a])"
    using assms by (simp add: dropWhile_append)
  then obtain ys where "dropWhile isWhiteSpace (rev t @ [a]) = ys @ [a]"
    by (metis append_Nil)
  then show ?thesis by (simp add: trimEnd_def)
qed

lemma trimEnd_idem: "trimEnd (trimEnd s) = trimEnd s"
  by (simp add: trimEnd_def)

lemma trimStart_trim: "trimStart (trim s) = trim s"
proof (cases "trimStart s")
  case Nil
  then have "trim s = []" by (simp add: trim_def trimEnd_def)
  then show ?thesis by (simp add: trimStart_def)
next
  case (Cons a t)
  then have na: "\<not> isWhiteSpace a" by (rule trimStart_no_leading)
  then obtain u where "trimEnd (a # t) = a # u" using trimEnd_keeps_head by blast
  with Cons na show ?thesis by (simp add: trim_def trimStart_def)
qed

lemma trim_idem: "trim (trim s) = trim s"
  by (metis trim_def trimStart_trim trimEnd_idem)

lemma set_trim_subset: "set (trim s) \<subseteq> set s"
proof -
  have "set (trimEnd t) \<subseteq> set t" for t
    using set_dropWhileD [of _ isWhiteSpace "rev t"] by (auto simp: trimEnd_def)
  moreover have "set (trimStart s) \<subseteq> set s"
    using set_dropWhileD [of _ isWhiteSpace s] by (auto simp: trimStart_def)
  ultimately show ?thesis unfolding trim_def by blast
qed

lemma length_trim_le: "length (trim s) \<le> length s"
proof -
  have "length (trimEnd t) \<le> length t" for t
    using length_dropWhile_le [of isWhiteSpace "rev t"] by (simp add: trimEnd_def)
  moreover have "length (trimStart s) \<le> length s"
    by (simp add: trimStart_def length_dropWhile_le)
  ultimately show ?thesis unfolding trim_def using le_trans by blast
qed

lemma stripAngle_id:
  "CHR ''<'' \<notin> set s \<Longrightarrow> CHR ''>'' \<notin> set s \<Longrightarrow> stripAngle s = s"
  unfolding stripAngle_def by (induction s) auto

subsection \<open>Sanitizing twice\<close>

lemma isWhiteSpace_simps:
  "isWhiteSpace CHR '' ''" "\<not> isWhiteSpace CHR ''a''" "\<not> isWhiteSpace CHR ''b''"
  by (simp_all add: isWhiteSpace_def)

lemma trim_fixed:
  assumes "s \<noteq> []" "\<not> isWhiteSpace (hd s)" "\<not> isWhiteSpace (last s)"
  shows "trim s = s"
proof -
  have 1: "trimStart s = s"
    using assms(1,2) by (cases s) (simp_all add: trimStart_def)
  have "rev s \<noteq> []" "\<not> isWhiteSpace (hd (rev s))"
    using assms(1,3) by (simp_all add: hd_rev)
  then have "dropWhile isWhiteSpace (rev s) = rev s"
    by (cases "rev s") simp_all
  then have "trimEnd s = s" by (simp add: trimEnd_def)
  with 1 show ?thesis by (simp add: trim_def)
qed

lemma trimEnd_snoc_space:
  "isWhiteSpace c \<Longrightarrow> trimEnd (s @ [c]) = trimEnd s"
  by (simp add: trimEnd_def)

lemma sanitizeInput_twice:
  "sanitizeInput (sanitizeInput (JStr x)) = JStr (trim (take 1000 (stripAngle (trim x))))"
proof -
  let ?y = "take 1000 (stripAngle (trim x))"
  have "set ?y \<subseteq> set (stripAngle (trim x))" by (rule set_take_subset)
  then have nb: "CHR ''<'' \<notin> set ?y" "CHR ''>'' \<notin> set ?y"
    by (auto simp: stripAngle_def)
  have "set (trim ?y) \<subseteq> set ?y" by (rule set_trim_subset)
  with nb have "stripAngle (trim ?y) = trim ?y"
    by (intro stripAngle_id) auto
  moreover have "length (trim ?y) \<le> 1000"
    using length_trim_le [of ?y] by simp
  ultimately show ?thesis by (simp add: sanitizeInput_def)
qed

text \<open>
  C4 (as amended). For every text input \<open>x\<close> of length at most 1000 that itself contains no
  angle bracket, sanitizing twice gives the same result as sanitizing once. (The first pass
  always leaves a string without angle brackets, so that condition on its output excludes
  nothing: see the counterexample below.)
\<close>

theorem sanitizeInput_idempotent_no_brackets:
  assumes "length x \<le> 1000" and "CHR ''<'' \<notin> set x" and "CHR ''>'' \<notin> set x"
  shows "sanitizeInput (sanitizeInput (JStr x)) = sanitizeInput (JStr x)"
proof -
  have "set (trim x) \<subseteq> set x" by (rule set_trim_subset)
  with assms(2,3) have "stripAngle (trim x) = trim x"
    by (intro stripAngle_id) auto
  moreover have "length (trim x) \<le> 1000"
    using length_trim_le [of x] assms(1) by simp
  ultimately have "sanitizeInput (JStr x) = JStr (trim x)"
    by (simp add: sanitizeInput_def)
  moreover have "sanitizeInput (sanitizeInput (JStr x)) = JStr (trim (trim x))"
    using \<open>stripAngle (trim x) = trim x\<close> \<open>length (trim x) \<le> 1000\<close>
    by (simp add: sanitizeInput_twice)
  ultimately show ?thesis by (simp add: trim_idem)
qed

theorem sanitizeInput_idempotent_no_brackets_witness:
  "length ''  report  '' \<le> 1000 \<and> CHR ''<'' \<notin> set ''  report  '' \<and> CHR ''>'' \<notin> set ''  report  ''
   \<and> sanitizeInput (JStr ''  report  '') = JStr ''report''
   \<and> sanitizeInput (sanitizeInput (JStr ''  report  '')) = sanitizeInput (JStr ''  report  '')"
  using sanitizeInput_idempotent_no_brackets [of "''  report  ''"]
  by (simp add: sanitizeInput_def trim_def trimStart_def trimEnd_def stripAngle_def isWhiteSpace_def)

text \<open>
  The claim as stated fails at \<open>x <\<close>: three code units, the first pass yields \<open>x\<close> followed
  by a space (no angle bracket left), and the second pass trims that space away.
\<close>

theorem sanitizeInput_idempotent_counterexample:
  "length ''x <'' \<le> 1000
   \<and> sanitizeInput (JStr ''x <'') = JStr ''x ''
   \<and> CHR ''<'' \<notin> set ''x '' \<and> CHR ''>'' \<notin> set ''x ''
   \<and> sanitizeInput (sanitizeInput (JStr ''x <'')) = JStr ''x''
   \<and> sanitizeInput (sanitizeInput (JStr ''x <'')) \<noteq> sanitizeInput (JStr ''x <'')"
  by (simp add: sanitizeInput_def trim_def trimStart_def trimEnd_def stripAngle_def isWhiteSpace_def)

lemma sanitize_long:
  "sanitizeInput (JStr (replicate 999 CHR ''a'' @ '' b'')) = JStr (replicate 999 CHR ''a'' @ '' '')"
proof -
  let ?s = "replicate 999 CHR ''a'' @ '' b''"
  have r: "replicate 999 CHR ''a'' = CHR ''a'' # replicate 998 CHR ''a''"
    by (simp add: replicate_Suc [symmetric] del: replicate_Suc)
  have "trim ?s = ?s"
    by (rule trim_fixed) (simp_all add: r isWhiteSpace_def)
  moreover have "stripAngle ?s = ?s"
    by (rule stripAngle_id) auto
  ultimately show ?thesis by (simp add: sanitizeInput_def)
qed

lemma sanitize_long2:
  "sanitizeInput (JStr (replicate 999 CHR ''a'' @ '' '')) = JStr (replicate 999 CHR ''a'')"
proof -
  let ?a = "replicate 999 CHR ''a''"
  have r: "?a = CHR ''a'' # replicate 998 CHR ''a''"
    by (simp add: replicate_Suc [symmetric] del: replicate_Suc)
  have "trimStart (?a @ '' '') = ?a @ '' ''"
    by (simp add: r trimStart_def isWhiteSpace_def)
  moreover have "trimEnd (?a @ '' '') = trimEnd ?a"
    by (rule trimEnd_snoc_space) (simp add: isWhiteSpace_def)
  moreover have "trimEnd ?a = ?a"
    by (simp add: trimEnd_def r isWhiteSpace_def)
  ultimately have "trim (?a @ '' '') = ?a" by (simp add: trim_def)
  moreover have "stripAngle ?a = ?a" by (rule stripAngle_id) auto
  ultimately show ?thesis by (simp add: sanitizeInput_def)
qed

text \<open>
  C9. The output of \<open>sanitizeInput\<close> is not in general a fixed point of \<open>sanitizeInput\<close>:
  a string of 1001 code units whose first 1000 end in a space is cut to them and loses the
  space in the second pass, and a string in which removing \<open><\<close> exposes a leading space is
  trimmed further by the second pass.
\<close>

theorem sanitizeInput_not_fixed_point:
  "(\<exists>s. sanitizeInput (sanitizeInput (JStr s)) \<noteq> sanitizeInput (JStr s))
   \<and> length (replicate 999 CHR ''a'' @ '' b'') = 1001
   \<and> sanitizeInput (JStr (replicate 999 CHR ''a'' @ '' b'')) = JStr (replicate 999 CHR ''a'' @ '' '')
   \<and> sanitizeInput (sanitizeInput (JStr (replicate 999 CHR ''a'' @ '' b''))) = JStr (replicate 999 CHR ''a'')
   \<and> sanitizeInput (JStr ''< a'') = JStr '' a''
   \<and> sanitizeInput (sanitizeInput (JStr ''< a'')) = JStr ''a''"
proof -
  have 1: "sanitizeInput (JStr ''< a'') = JStr '' a''"
    by (simp add: sanitizeInput_def trim_def trimStart_def trimEnd_def stripAngle_def isWhiteSpace_def)
  have 2: "sanitizeInput (JStr '' a'') = JStr ''a''"
    by (simp add: sanitizeInput_def trim_def trimStart_def trimEnd_def stripAngle_def isWhiteSpace_def)
  have "sanitizeInput (sanitizeInput (JStr ''< a'')) \<noteq> sanitizeInput (JStr ''< a'')"
    by (simp add: 1 2)
  then have "\<exists>s. sanitizeInput (sanitizeInput (JStr s)) \<noteq> sanitizeInput (JStr s)" ..
  then show ?thesis by (simp add: 1 2 sanitize_long sanitize_long2)
qed

subsection \<open>The response formatter\<close>

text \<open>
  C3. For every bug document, \<open>formatBugResponse\<close> returns an object with exactly the ten
  keys \<open>id, title, description, status, priority, reporter, assignedTo, tags, createdAt,
  updatedAt\<close>: \<open>id\<close> holds the document's \<open>_id\<close>, the key \<open>_id\<close> does not occur, \<open>id\<close> occurs
  exactly once, and each of the other nine keys holds the document's value under the same
  key, unchanged.
\<close>

theorem formatBugResponse_shape:
  "map fst (formatBugResponse bug) =
     [''id'', ''title'', ''description'', ''status'', ''priority'', ''reporter'',
      ''assignedTo'', ''tags'', ''createdAt'', ''updatedAt'']
   \<and> ''_id'' \<notin> set (map fst (formatBugResponse bug))
   \<and> length (filter (\<lambda>k. k = ''id'') (map fst (formatBugResponse bug))) = 1
   \<and> getProp (formatBugResponse bug) ''id'' = getProp bug ''_id''
   \<and> list_all (\<lambda>k. getProp (formatBugResponse bug) k = getProp bug k)
        [''title'', ''description'', ''status'', ''priority'', ''reporter'',
         ''assignedTo'', ''tags'', ''createdAt'', ''updatedAt'']"
  by (simp add: formatBugResponse_def getProp_def)

section \<open>Properties of the validation middleware\<close>

subsection \<open>Objects and chains\<close>

lemma getProp_Nil: "getProp [] k = JUndefined"
  by (simp add: getProp_def)

lemma getProp_Cons: "getProp ((k', v) # ps) k = (if k = k' then v else getProp ps k)"
  by (simp add: getProp_def)

lemma getProp_setProp: "getProp (setProp obj k v) k' = (if k' = k then v else getProp obj k')"
  by (induction obj k v rule: setProp.induct) (auto simp: getProp_def)

lemma runValidation_fst:
  "fst (runValidation (c # cs) req) = fst (runValidation cs (fst (runChain c req)))"
  by (simp split: prod.splits)

lemma runValidation_snd:
  "snd (runValidation (c # cs) req) = snd (runChain c req) @ snd (runValidation cs (fst (runChain c req)))"
  by (simp split: prod.splits)

lemma runValidation_append_fst:
  "fst (runValidation (cs @ cs') req) = fst (runValidation cs' (fst (runValidation cs req)))"
  by (induction cs arbitrary: req) (simp_all add: runValidation_fst del: runValidation.simps(2))

lemma runValidation_append_snd:
  "snd (runValidation (cs @ cs') req) =
     snd (runValidation cs req) @ snd (runValidation cs' (fst (runValidation cs req)))"
  by (induction cs arbitrary: req)
     (simp_all add: runValidation_fst runValidation_snd del: runValidation.simps(2))

lemma runChain_body_snd:
  "snd (runChain (body f items) req) = snd (runField items (getProp (req_body req) f))"
  by (simp split: prod.splits)

lemma runChain_body_prop:
  "getProp (req_body (fst (runChain (body f items) req))) k =
     (if k = f then fst (runField items (getProp (req_body req) f)) else getProp (req_body req) k)"
  by (auto simp: getProp_setProp split: prod.splits)

lemma runChain_body_params:
  "req_params (fst (runChain (body f items) req)) = req_params req"
  by (simp split: prod.splits)

lemma runChain_body_query:
  "req_query (fst (runChain (body f items) req)) = req_query req"
  by (simp split: prod.splits)

lemma runChain_param_snd:
  "snd (runChain (param f items) req) = snd (runField items (getProp (req_params req) f))"
  by (simp split: prod.splits)

lemma runChain_param_prop:
  "getProp (req_params (fst (runChain (param f items) req))) k =
     (if k = f then fst (runField items (getProp (req_params req) f)) else getProp (req_params req) k)"
  by (auto simp: getProp_setProp split: prod.splits)

lemma runChain_param_body:
  "req_body (fst (runChain (param f items) req)) = req_body req"
  by (simp split: prod.splits)

lemma runChain_idcheck:
  "runChain (param f [IsMongoId m]) req = (req, failing isMongoId m (getProp (req_params req) f))"
  by (simp add: runField_def)


lemmas chain_proj =
  runValidation_fst runValidation_snd runValidation_append_fst runValidation_append_snd
  runChain_body_snd runChain_body_prop runChain_body_params runChain_body_query
  runChain_param_snd runChain_param_prop runChain_param_body

lemma violations_create:
  "snd (runValidation createBugValidation req) = violations createBugValidation req"
  by (simp add: createBugValidation_def violations_def chain_proj
           del: runValidation.simps(2) runChain.simps)

lemma violations_id:
  "snd (runValidation bugIdValidation req) = violations bugIdValidation req"
  by (simp add: bugIdValidation_def violations_def chain_proj
           del: runValidation.simps(2) runChain.simps)

lemma violations_update:
  "snd (runValidation (bugIdValidation @ updateBugValidation) req) =
     violations (bugIdValidation @ updateBugValidation) req"
  by (simp add: bugIdValidation_def updateBugValidation_def violations_def chain_proj
           del: runValidation.simps(2) runChain.simps)

lemmas route_defs =
  statsRoute_def listRoute_def createRoute_def getRoute_def updateRoute_def deleteRoute_def

lemma routes_validated:
  assumes "r \<in> set bugRoutes" and "validated r"
  shows "chains r = createBugValidation \<or> chains r = bugIdValidation
         \<or> chains r = bugIdValidation @ updateBugValidation"
  using assms by (auto simp: bugRoutes_def route_defs)

text \<open>
  The routes that validate are the create route and the three routes with an identifier;
  the list route and the statistics route do not.
\<close>

lemma routes_with_validation:
  "map (\<lambda>r. (route_verb r, route_path r, validated r)) bugRoutes =
     [(GET, ''/stats'', False), (GET, ''/'', False), (POST, ''/'', True),
      (GET, ''/:id'', True), (PUT, ''/:id'', True), (DELETE, ''/:id'', True)]"
  by (simp add: bugRoutes_def route_defs)

lemma runRoute_rejects:
  assumes "validated r" and "snd (runValidation (chains r) req) \<noteq> []"
  shows "runRoute r req e d =
           (NextErr (AppError (join '', '' (snd (runValidation (chains r) req))) 400), d)"
  using assms by (auto simp: runRoute_def validateRequest_def split: prod.splits)

subsection \<open>Numbers as text\<close>

lemma numberToString_examples:
  "numberToString 42 = ''42''"
  "numberToString (- 7) = ''-7''"
  "numberToString 0 = ''0''"
  by (simp_all add: numberToString_def toDouble_def bitLength.simps shortestDecimal_def
        showDouble_def showNat.simps digitChar_def)

text \<open>From \<open>10^21\<close> on a number is printed in exponent form.\<close>

lemma numberToString_exponent: "numberToString (10 ^ 21) = ''1e+21''"
proof -
  let ?x = "1000000000000000000000 :: nat"
  have b: "bitLength ?x = 70"
    by (simp add: bitLength.simps)
  have s: "showNat ?x = ''1000000000000000000000''"
    by (simp add: showNat.simps digitChar_def)
  have t: "toDouble ?x = Some ?x"
    by (simp add: toDouble_def b Let_def)
  have r: "roundsTo ?x ?x" "\<not> roundsTo ?x 0" "\<not> roundsTo ?x 10000000000000000000000"
    "\<not> roundsTo ?x 2000000000000000000000"
    by (simp_all add: roundsTo_def b Let_def)
  have "shortest ?x (Suc 20) = ?x"
    by (subst shortest.simps(2)) (simp add: Let_def r)
  then have sh: "shortest ?x (Suc 21) = ?x"
    by (subst shortest.simps(2)) (simp add: Let_def r)
  have l: "length (showNat ?x) = Suc 21"
    by (simp add: s)
  have big: "\<not> ?x \<le> 2 ^ 53"
    by simp
  have "shortestDecimal ?x = ?x"
    unfolding shortestDecimal_def l using big sh by (simp only: if_False)
  then show ?thesis
    by (simp add: numberToString_def t showDouble_def s trimZeros_def showNat.simps digitChar_def)
qed

lemma digitChar_digit: "n < 10 \<Longrightarrow> digitChar n \<in> set ''0123456789''"
  unfolding digitChar_def by (rule nth_mem) simp

lemma showNat_head: "\<exists>c cs. showNat n = c # cs \<and> c \<in> set ''0123456789''"
proof (induction n rule: showNat.induct)
  case (1 n)
  show ?case
  proof (cases "n < 10")
    case True
    then have "showNat n = [digitChar n]" by (simp add: showNat.simps)
    then show ?thesis using digitChar_digit [OF True] by blast
  next
    case False
    then obtain c cs where "showNat (n div 10) = c # cs" "c \<in> set ''0123456789''"
      using 1 by blast
    moreover have "showNat n = showNat (n div 10) @ [digitChar (n mod 10)]"
      using False by (subst showNat.simps) simp
    ultimately have "showNat n = c # (cs @ [digitChar (n mod 10)])" by simp
    then show ?thesis using \<open>c \<in> set ''0123456789''\<close> by blast
  qed
qed

lemma showDouble_head: "\<exists>c cs. showDouble v = c # cs \<and> c \<in> set ''0123456789''"
proof -
  obtain c cs where c: "showNat v = c # cs" "c \<in> set ''0123456789''"
    using showNat_head by blast
  show ?thesis
  proof (cases "v < 10 ^ 21")
    case True
    then show ?thesis using c by (simp add: showDouble_def)
  next
    case False
    then have "\<exists>cs'. showDouble v = c # cs'"
      using c(1) by (simp add: showDouble_def Let_def)
    then show ?thesis using c(2) by blast
  qed
qed

lemma numberToString_head: "\<exists>c cs. numberToString i = c # cs \<and> c \<in> set ''-I0123456789''"
proof -
  define body where "body = (case toDouble (nat \<bar>i\<bar>) of
                    None \<Rightarrow> ''Infinity''
                  | Some x \<Rightarrow> showDouble (shortestDecimal x))"
  have "\<exists>c cs. body = c # cs \<and> c \<in> set ''-I0123456789''"
  proof (cases "toDouble (nat \<bar>i\<bar>)")
    case None
    then show ?thesis by (simp add: body_def)
  next
    case (Some x)
    obtain c cs where "showDouble (shortestDecimal x) = c # cs" "c \<in> set ''0123456789''"
      using showDouble_head by blast
    then show ?thesis using Some by (auto simp: body_def)
  qed
  moreover have "numberToString i = (if i < 0 then CHR ''-'' # body else body)"
    by (simp add: numberToString_def body_def Let_def)
  ultimately show ?thesis by auto
qed

text \<open>No number prints as a word of the two enumerations.\<close>

lemma numberToString_no_word:
  "numberToString i \<notin> set [''open'', ''in-progress'', ''resolved'', ''closed'',
                              ''low'', ''medium'', ''high'', ''critical'']"
proof -
  obtain c cs where "numberToString i = c # cs" "c \<in> set ''-I0123456789''"
    using numberToString_head by blast
  then show ?thesis by auto
qed


lemma stringify_priority:
  "\<not> isArray v \<Longrightarrow>
     stringify v \<in> set [''low'', ''medium'', ''high'', ''critical''] \<longleftrightarrow> isValidPriority v"
  using numberToString_no_word [of "case v of JNum n \<Rightarrow> n | _ \<Rightarrow> 0"]
  by (cases v) (auto simp: isValidPriority_def isArray_def)

subsection \<open>Rejection of invalid requests\<close>

text \<open>
  C1. On every route that validates (create, get by id, update, delete), a request with at
  least one violation is ended by \<open>validateRequest\<close> with an \<open>AppError\<close> of status 400
  whose message is the comma-joined list of all violation messages of the request, in
  order; the error handler classifies it as 400; and the outcome is the same whatever the
  controller and the storage environment are, and the collection is unchanged: the
  controller, and with it every storage call, does not run.
\<close>

theorem invalid_request_rejected_with_all_messages:
  assumes "r \<in> set bugRoutes" and "validated r" and "violations (chains r) req \<noteq> []"
  shows "runRoute r req e d =
           (NextErr (AppError (join '', '' (violations (chains r) req)) 400), d)
       \<and> errorStatus (AppError (join '', '' (violations (chains r) req)) 400) = 400
       \<and> (\<forall>h e'. runRoute (r\<lparr>handler := h\<rparr>) req e' d =
                    (NextErr (AppError (join '', '' (violations (chains r) req)) 400), d))"
proof -
  have v: "snd (runValidation (chains r) req) = violations (chains r) req"
    using routes_validated [OF assms(1,2)] violations_create violations_id violations_update
    by auto
  have "runRoute r' req e' d =
          (NextErr (AppError (join '', '' (violations (chains r) req)) 400), d)"
    if "chains r' = chains r" and "validated r'" for r' e'
    using runRoute_rejects [of r' req e' d] that v assms(3) by simp
  from this [of r e] this [of "r\<lparr>handler := h\<rparr>" for h] assms(2)
  show ?thesis by simp
qed

lemma violations_empty_post:
  "violations createBugValidation \<lparr>req_params = [], req_query = [], req_body = []\<rparr> =
     [''Title is required'', ''Title must be 3-200 characters'', ''Description is required'',
      ''Description must be at least 10 characters'', ''Reporter name is required'']"
  by (simp add: violations_def createBugValidation_def runField_def getProp_def failing_def
        elems_def lengthOk_def trim_def trimStart_def trimEnd_def)

theorem invalid_request_rejected_with_all_messages_witness:
  "createRoute \<in> set bugRoutes \<and> validated createRoute
   \<and> violations (chains createRoute) \<lparr>req_params = [], req_query = [], req_body = []\<rparr> =
       [''Title is required'', ''Title must be 3-200 characters'', ''Description is required'',
        ''Description must be at least 10 characters'', ''Reporter name is required'']
   \<and> runRoute createRoute \<lparr>req_params = [], req_query = [], req_body = []\<rparr>
         (quietStore 0 ''507f1f77bcf86cd799439011'') [] =
       (NextErr (AppError ''Title is required, Title must be 3-200 characters, Description is required, Description must be at least 10 characters, Reporter name is required'' 400), [])"
proof -
  let ?req = "\<lparr>req_params = [], req_query = [], req_body = []\<rparr>"
  have r: "createRoute \<in> set bugRoutes" "validated createRoute"
    by (simp_all add: bugRoutes_def createRoute_def)
  have c: "chains createRoute = createBugValidation"
    by (simp add: createRoute_def)
  have v: "violations (chains createRoute) ?req \<noteq> []"
    by (simp add: c violations_empty_post)
  show ?thesis
    using invalid_request_rejected_with_all_messages [OF r v] r
    by (simp add: c violations_empty_post)
qed

section \<open>Properties of the routes\<close>

subsection \<open>Identifier check and lookup\<close>

lemma runValidation_id_fst: "fst (runValidation bugIdValidation req) = req"
  by (simp add: bugIdValidation_def runField_def)

lemma update_chains_params:
  "req_params (fst (runValidation (bugIdValidation @ updateBugValidation) req)) = req_params req"
  by (simp add: runValidation_append_fst runValidation_id_fst updateBugValidation_def
        runValidation_fst runChain_body_params del: runValidation.simps(2) runChain.simps)





text \<open>A string of 24 hexadecimal digits passes the identifier rule.\<close>

lemma isObjectIdHex_isMongoId: "isObjectIdHex i \<Longrightarrow> isMongoId i"
  by (auto simp: isObjectIdHex_def isMongoId_def isHexadecimal_def hexDigits_def)



lemma isObjectIdHex_example: "isObjectIdHex ''507f1f77bcf86cd799439011''"
  by (simp add: isObjectIdHex_def isHexDigit_def)

lemma isMongoId_example: "isMongoId ''507f1f77bcf86cd799439011''"
  using isObjectIdHex_example by (rule isObjectIdHex_isMongoId)


lemma quietStore_simps:
  "now (quietStore t i) = t" "freshId (quietStore t i) = i" "faults (quietStore t i) k = None"
  "castMessage (quietStore t i) p v = ''Cast failed at path \"'' @ p @ ''\"''"
  "condition (quietStore t i) p v = Inr (\<lambda>doc. False)"
  "sortOrder (quietStore t i) sortBy = Inr (\<lambda>a b. False)"
  by (simp_all add: quietStore_def)




section \<open>Properties of the controllers\<close>

subsection \<open>Storage failures on create and update\<close>





lemmas eval_strings =
  trim_def trimStart_def trimEnd_def stripAngle_def isWhiteSpace_def sanitizeInput_def

lemmas eval_chains =
  runField_def failing_def elems_def lengthOk_def isArray_def getProp_def validateRequest_def

lemmas eval_storage =
  bugSchema_def stringPath_def buildPath_def buildTags_def castTags_def castElems_def
  applySetters_def validatePath_def orElse_def enumMessage_def lefts_def rights_def
  validationError_def isDefined_def quietStore_simps Let_def



text \<open>
  The claim as stated fails where it says that every other storage failure is surfaced as
  a server error: when the storage call rejects with an error that is named
  \<open>ValidationError\<close> and has no \<open>errors\<close> object, \<open>createBug\<close> neither answers nor passes an
  error on; a \<open>TypeError\<close> escapes from its \<open>catch\<close> block.
\<close>

theorem storage_error_without_errors_counterexample:
  "Bug_create
     ((quietStore 0 ''507f1f77bcf86cd799439011'')
        \<lparr>faults := (\<lambda>k. Some \<lparr>err_name = ''ValidationError'', err_message = ''rejected'',
                               err_errors = None\<rparr>)\<rparr>) 0
     (bugData [(''title'', JStr ''Crash''), (''description'', JStr ''It crashes on start''),
               (''reporter'', JStr ''Ann'')]) [] =
   (Inl (StorageError \<lparr>err_name = ''ValidationError'', err_message = ''rejected'',
                        err_errors = None\<rparr>), [])
   \<and> createBug
         \<lparr>req_params = [], req_query = [],
          req_body = [(''title'', JStr ''Crash''), (''description'', JStr ''It crashes on start''),
                      (''reporter'', JStr ''Ann'')]\<rparr>
         ((quietStore 0 ''507f1f77bcf86cd799439011'')
            \<lparr>faults := (\<lambda>k. Some \<lparr>err_name = ''ValidationError'', err_message = ''rejected'',
                                   err_errors = None\<rparr>)\<rparr>) [] =
       (Unhandled (TypeError ''Cannot convert undefined or null to object''), [])"
  by (simp add: createBug_def catchValidation_def Bug_create_def bugData_def getProp_def jsOr_def
        eval_strings eval_storage)

subsection \<open>The status of a new bug\<close>













subsection \<open>Statistics\<close>

lemma groupCount_ids:
  "map (\<lambda>entry. getProp entry ''_id'') (groupCount field docs) = remdups (map (groupKey field) docs)"
  by (simp add: groupCount_def getProp_Cons comp_def)

lemma groupCount_entries:
  "list_all (\<lambda>entry. map fst entry = [''_id'', ''count'']
        \<and> getProp entry ''count'' =
            JNum (int (length (filter (\<lambda>doc. groupKey field doc = getProp entry ''_id'') docs))))
     (groupCount field docs)"
  by (simp add: groupCount_def list_all_iff getProp_Cons)

lemma sum_counts:
  "(\<Sum>v\<leftarrow>remdups xs. length (filter (\<lambda>x. x = v) xs)) = length xs"
proof -
  have "(\<Sum>v\<leftarrow>remdups xs. length (filter (\<lambda>x. x = v) xs)) = (\<Sum>v\<in>set xs. count_list xs v)"
    by (simp add: sum_list_distinct_conv_sum_set count_list_eq_length_filter eq_commute)
  also have "\<dots> = length xs" by (rule sum_count_set) simp_all
  finally show ?thesis .
qed

lemma groupCount_total:
  "(\<Sum>entry\<leftarrow>groupCount field docs. case getProp entry ''count'' of JNum n \<Rightarrow> n | _ \<Rightarrow> 0) =
     int (length docs)"
proof -
  have "(\<Sum>entry\<leftarrow>groupCount field docs. case getProp entry ''count'' of JNum n \<Rightarrow> n | _ \<Rightarrow> 0) =
        (\<Sum>v\<leftarrow>remdups (map (groupKey field) docs).
            int (length (filter (\<lambda>x. x = v) (map (groupKey field) docs))))"
    by (simp add: groupCount_def getProp_Cons comp_def length_filter_map)
  also have "\<dots> = int (\<Sum>v\<leftarrow>remdups (map (groupKey field) docs).
                          length (filter (\<lambda>x. x = v) (map (groupKey field) docs)))"
    by (simp add: sum_list_of_nat [symmetric] comp_def)
  also have "\<dots> = int (length docs)"
    using sum_counts [of "map (groupKey field) docs"] by simp
  finally show ?thesis .
qed

text \<open>
  C8 (as amended). When the two aggregations do not fail, \<open>getBugStats\<close> answers 200 with
  \<open>success: true\<close> and a \<open>data\<close> object whose members \<open>byStatus\<close> and \<open>byPriority\<close> are the
  sequences of the aggregation's output documents for \<open>status\<close> and for \<open>priority\<close>. Each
  output document has exactly the keys \<open>_id\<close> and \<open>count\<close>; the \<open>_id\<close>s of a sequence are
  distinct and are the values of the field that occur in the collection; each \<open>count\<close> is
  the number of documents of the whole collection with that value, so the counts of a
  sequence add up to the size of the collection. The collection is unchanged.
\<close>

theorem stats_group_counts:
  assumes "faults e 0 = None" and "faults e 1 = None"
  shows "getBugStats req e d =
           (Response 200
              [(''success'', JBool True),
               (''data'', JObj [(''byStatus'', JArr (map JObj (groupCount ''status'' d))),
                               (''byPriority'', JArr (map JObj (groupCount ''priority'' d)))])], d)
       \<and> (\<forall>field.
             distinct (map (\<lambda>entry. getProp entry ''_id'') (groupCount field d))
           \<and> set (map (\<lambda>entry. getProp entry ''_id'') (groupCount field d)) = groupKey field ` set d
           \<and> list_all (\<lambda>entry. map fst entry = [''_id'', ''count'']
                 \<and> getProp entry ''count'' =
                     JNum (int (length (filter (\<lambda>doc. groupKey field doc = getProp entry ''_id'') d))))
                (groupCount field d)
           \<and> (\<Sum>entry\<leftarrow>groupCount field d. case getProp entry ''count'' of JNum n \<Rightarrow> n | _ \<Rightarrow> 0) =
               int (length d))"
  using assms
  by (simp add: getBugStats_def Bug_aggregate_def success_def groupCount_ids groupCount_entries
        groupCount_total)

theorem stats_group_counts_witness:
  "getBugStats \<lparr>req_params = [], req_query = [], req_body = []\<rparr>
     (quietStore 0 ''507f1f77bcf86cd799439011'')
     [[(''_id'', JStr ''a''), (''status'', JStr ''open''), (''priority'', JStr ''high'')],
      [(''_id'', JStr ''b''), (''status'', JStr ''open''), (''priority'', JStr ''low'')],
      [(''_id'', JStr ''c''), (''status'', JStr ''resolved''), (''priority'', JStr ''high'')]] =
   (Response 200
      [(''success'', JBool True),
       (''data'', JObj [(''byStatus'', JArr [JObj [(''_id'', JStr ''open''), (''count'', JNum 2)],
                                            JObj [(''_id'', JStr ''resolved''), (''count'', JNum 1)]]),
                       (''byPriority'', JArr [JObj [(''_id'', JStr ''low''), (''count'', JNum 1)],
                                              JObj [(''_id'', JStr ''high''), (''count'', JNum 2)]])])],
    [[(''_id'', JStr ''a''), (''status'', JStr ''open''), (''priority'', JStr ''high'')],
     [(''_id'', JStr ''b''), (''status'', JStr ''open''), (''priority'', JStr ''low'')],
     [(''_id'', JStr ''c''), (''status'', JStr ''resolved''), (''priority'', JStr ''high'')]])"
  using stats_group_counts
          [where e = "(quietStore 0 ''507f1f77bcf86cd799439011'')"
             and req = "\<lparr>req_params = [], req_query = [], req_body = []\<rparr>"
             and d = "[[(''_id'', JStr ''a''), (''status'', JStr ''open''), (''priority'', JStr ''high'')],
      [(''_id'', JStr ''b''), (''status'', JStr ''open''), (''priority'', JStr ''low'')],
      [(''_id'', JStr ''c''), (''status'', JStr ''resolved''), (''priority'', JStr ''high'')]]"]
  by (simp add: groupCount_def groupKey_def getProp_def quietStore_simps)

text \<open>
  The claim as stated fails on the member names: the entries are the aggregation's output
  documents, in which the grouped value stands under \<open>_id\<close>; they have no member \<open>value\<close>.
\<close>

theorem stats_entry_keys_counterexample:
  "getBugStats \<lparr>req_params = [], req_query = [], req_body = []\<rparr>
     (quietStore 0 ''507f1f77bcf86cd799439011'')
     [[(''_id'', JStr ''a''), (''status'', JStr ''open''), (''priority'', JStr ''high'')]] =
   (Response 200
      [(''success'', JBool True),
       (''data'', JObj [(''byStatus'', JArr [JObj [(''_id'', JStr ''open''), (''count'', JNum 1)]]),
                       (''byPriority'', JArr [JObj [(''_id'', JStr ''high''), (''count'', JNum 1)]])])],
    [[(''_id'', JStr ''a''), (''status'', JStr ''open''), (''priority'', JStr ''high'')]])
   \<and> getProp [(''_id'', JStr ''open''), (''count'', JNum 1)] ''value'' = JUndefined
   \<and> map fst [(''_id'', JStr ''open''), (''count'', JNum (1::int))] = [''_id'', ''count'']"
  by (simp add: getBugStats_def Bug_aggregate_def success_def groupCount_def groupKey_def
        getProp_def quietStore_simps)

subsection \<open>What the update rules leave in the body\<close>

lemma runItem_defined: "v \<noteq> JUndefined \<Longrightarrow> fst (runItem i v) \<noteq> JUndefined"
  by (cases i; cases v) simp_all

lemma runItems_fst:
  "fst (runItems (i # items) v) = fst (runItems items (fst (runItem i v)))"
  by (simp split: prod.splits)

lemma runItems_defined: "v \<noteq> JUndefined \<Longrightarrow> fst (runItems items v) \<noteq> JUndefined"
proof (induction items arbitrary: v)
  case Nil
  then show ?case by simp
next
  case (Cons i items)
  from Cons.prems have "fst (runItem i v) \<noteq> JUndefined" by (rule runItem_defined)
  then have "fst (runItems items (fst (runItem i v))) \<noteq> JUndefined" by (rule Cons.IH)
  then show ?case by (simp add: runItems_fst del: runItems.simps(2))
qed

lemma runField_undefined_iff:
  "Optional \<in> set items \<Longrightarrow> fst (runField items v) = JUndefined \<longleftrightarrow> v = JUndefined"
  using runItems_defined [of v items] by (auto simp: runField_def)

lemma runValidation_undefined_iff:
  assumes "list_all (\<lambda>c. case c of body f items \<Rightarrow> Optional \<in> set items | param f items \<Rightarrow> False) cs"
  shows "getProp (req_body (fst (runValidation cs req))) k = JUndefined
           \<longleftrightarrow> getProp (req_body req) k = JUndefined"
  using assms
proof (induction cs arbitrary: req)
  case Nil
  then show ?case by simp
next
  case (Cons c cs)
  then obtain f items where c: "c = body f items" "Optional \<in> set items"
    by (cases c) simp_all
  have "getProp (req_body (fst (runChain c req))) k = JUndefined
          \<longleftrightarrow> getProp (req_body req) k = JUndefined"
    using c runField_undefined_iff [of items "getProp (req_body req) f"]
    by (simp add: runChain_body_prop del: runChain.simps)
  moreover have "getProp (req_body (fst (runValidation cs (fst (runChain c req))))) k = JUndefined
          \<longleftrightarrow> getProp (req_body (fst (runChain c req))) k = JUndefined"
    using Cons by simp
  ultimately show ?case
    by (simp add: runValidation_fst del: runValidation.simps(2) runChain.simps)
qed

lemma update_chains_undefined_iff:
  "getProp (req_body (fst (runValidation (bugIdValidation @ updateBugValidation) req))) k = JUndefined
     \<longleftrightarrow> getProp (req_body req) k = JUndefined"
proof -
  have "list_all (\<lambda>c. case c of body f items \<Rightarrow> Optional \<in> set items | param f items \<Rightarrow> False)
          updateBugValidation"
    by (simp add: updateBugValidation_def)
  then show ?thesis
    by (simp add: runValidation_append_fst runValidation_id_fst runValidation_undefined_iff)
qed

text \<open>The value and the messages of a trimmed field with a length rule.\<close>

lemma trimmed_shape:
  "(\<exists>s. fst (runItem Trim v) = JStr s) \<or> (\<exists>xs. fst (runItem Trim v) = JArr xs)"
  by (cases v) simp_all

lemma runField_trim_length:
  assumes "v \<noteq> JUndefined"
  shows "fst (runField [Optional, Trim, IsLength lo hi m] v) = fst (runItem Trim v)"
    and "snd (runField [Optional, Trim, IsLength lo hi m] v) =
           failing (lengthOk lo hi) m (fst (runItem Trim v))"
  using assms by (simp_all add: runField_def)

lemma runField_trim:
  assumes "v \<noteq> JUndefined"
  shows "fst (runField [Optional, Trim] v) = fst (runItem Trim v)"
  using assms by (simp add: runField_def)

lemma failing_string: "failing ok m (JStr s) = [] \<Longrightarrow> ok s"
  by (simp add: failing_def elems_def split: if_splits)

lemma update_chains_title:
  "getProp (req_body (fst (runValidation (bugIdValidation @ updateBugValidation) req))) ''title'' =
     fst (runField [Optional, Trim, IsLength 3 (Some 200) ''Title must be 3-200 characters'']
            (getProp (req_body req) ''title''))"
  by (simp add: runValidation_append_fst runValidation_id_fst updateBugValidation_def chain_proj
           del: runValidation.simps(2) runChain.simps)

lemma update_chains_description:
  "getProp (req_body (fst (runValidation (bugIdValidation @ updateBugValidation) req))) ''description'' =
     fst (runField [Optional, Trim, IsLength 10 None ''Description must be at least 10 characters'']
            (getProp (req_body req) ''description''))"
  by (simp add: runValidation_append_fst runValidation_id_fst updateBugValidation_def chain_proj
           del: runValidation.simps(2) runChain.simps)

lemma update_chains_assignedTo:
  "getProp (req_body (fst (runValidation (bugIdValidation @ updateBugValidation) req))) ''assignedTo'' =
     fst (runField [Optional, Trim] (getProp (req_body req) ''assignedTo''))"
  by (simp add: runValidation_append_fst runValidation_id_fst updateBugValidation_def chain_proj
           del: runValidation.simps(2) runChain.simps)

lemma update_chains_messages:
  assumes "snd (runValidation (bugIdValidation @ updateBugValidation) req) = []"
  shows "snd (runField [Optional, Trim, IsLength 3 (Some 200) ''Title must be 3-200 characters'']
            (getProp (req_body req) ''title'')) = []"
    and "snd (runField [Optional, Trim, IsLength 10 None ''Description must be at least 10 characters'']
            (getProp (req_body req) ''description'')) = []"
  using assms
  by (simp_all add: runValidation_append_snd runValidation_id_fst updateBugValidation_def chain_proj
           del: runValidation.simps(2) runChain.simps)

text \<open>After the update rules, a supplied free-text field is a string or an array, and a
  title or description that is a string is not empty.\<close>

lemma accepted_free_text:
  assumes acc: "runValidation (bugIdValidation @ updateBugValidation) req0 = (req, [])"
      and k: "k = ''title'' \<or> k = ''description'' \<or> k = ''assignedTo''"
      and sup: "getProp (req_body req0) k \<noteq> JUndefined"
  shows "(\<exists>s. getProp (req_body req) k = JStr s \<and> (k = ''assignedTo'' \<or> s \<noteq> []))
         \<or> (\<exists>xs. getProp (req_body req) k = JArr xs)"
proof -
  have req: "req = fst (runValidation (bugIdValidation @ updateBugValidation) req0)"
    and msgs: "snd (runValidation (bugIdValidation @ updateBugValidation) req0) = []"
    using acc by simp_all
  let ?v = "getProp (req_body req0) k"
  have val: "getProp (req_body req) k = fst (runItem Trim ?v)"
    using k sup
    by (auto simp: req update_chains_title update_chains_description update_chains_assignedTo
          runField_trim_length runField_trim)
  show ?thesis
  proof (cases "\<exists>xs. fst (runItem Trim ?v) = JArr xs")
    case True
    then show ?thesis using val by simp
  next
    case False
    then obtain s where s: "fst (runItem Trim ?v) = JStr s"
      using trimmed_shape [of ?v] by blast
    have "s \<noteq> []" if "k \<noteq> ''assignedTo''"
    proof -
      have "\<exists>lo hi. lengthOk lo hi s \<and> 0 < lo"
      proof (cases "k = ''title''")
        case True
        then have "failing (lengthOk 3 (Some 200)) ''Title must be 3-200 characters'' (JStr s) = []"
          using update_chains_messages(1) [OF msgs] sup s by (simp add: runField_trim_length)
        then have "lengthOk 3 (Some 200) s" by (rule failing_string)
        then show ?thesis by (intro exI [of _ 3] exI [of _ "Some 200"]) simp
      next
        case False
        then have "k = ''description''" using k that by simp
        then have "failing (lengthOk 10 None) ''Description must be at least 10 characters'' (JStr s) = []"
          using update_chains_messages(2) [OF msgs] sup s by (simp add: runField_trim_length)
        then have "lengthOk 10 None s" by (rule failing_string)
        then show ?thesis by (intro exI [of _ 10] exI [of _ None]) simp
      qed
      then show ?thesis by (auto simp: lengthOk_def)
    qed
    then show ?thesis using val s by auto
  qed
qed

subsection \<open>What the storage call does with the update object\<close>

lemma applySets_other:
  "k \<notin> fst ` set sets \<Longrightarrow> getProp (applySets sets doc) k = getProp doc k"
  unfolding applySets_def
  by (induction sets arbitrary: doc) (auto simp: getProp_setProp)

lemma applySets_member:
  "distinct (map fst sets) \<Longrightarrow> (k, v) \<in> set sets \<Longrightarrow> getProp (applySets sets doc) k = v"
proof (induction sets arbitrary: doc)
  case Nil
  then show ?case by simp
next
  case (Cons kv sets)
  show ?case
  proof (cases "kv = (k, v)")
    case True
    then have "k \<notin> fst ` set sets" using Cons.prems(1) by auto
    then have "getProp (applySets sets (setProp doc k v)) k = getProp (setProp doc k v) k"
      by (rule applySets_other)
    then show ?thesis using True by (simp add: applySets_def getProp_setProp)
  next
    case False
    then have "(k, v) \<in> set sets" using Cons.prems(2) by simp
    moreover have "distinct (map fst sets)" using Cons.prems(1) by simp
    ultimately have "getProp (applySets sets (setProp doc (fst kv) (snd kv))) k = v"
      by (rule Cons.IH [rotated])
    then show ?thesis by (simp add: applySets_def)
  qed
qed

lemma castUpdate_Inr:
  "castUpdate (k, v) = Inr kvs \<Longrightarrow> kvs = [] \<or> (\<exists>v'. kvs = [(k, v')])"
  by (auto simp: castUpdate_def split: if_splits option.splits)

lemma rights_Cons:
  "rights (x # xs) = (case x of Inl a \<Rightarrow> [] | Inr b \<Rightarrow> [b]) @ rights xs"
  by (simp add: rights_def)

lemma lefts_Cons:
  "lefts (x # xs) = (case x of Inl a \<Rightarrow> [a] | Inr b \<Rightarrow> []) @ lefts xs"
  by (simp add: lefts_def)

lemma cast_keys:
  "fst ` set (concat (rights (map castUpdate u))) \<subseteq> fst ` set u"
proof (induction u)
  case Nil
  then show ?case by (simp add: rights_def)
next
  case (Cons kv u)
  obtain k v where kv: "kv = (k, v)" by (cases kv)
  show ?case
  proof (cases "castUpdate (k, v)")
    case (Inl a)
    then show ?thesis using Cons kv by (auto simp: rights_Cons)
  next
    case (Inr kvs)
    then have "kvs = [] \<or> (\<exists>v'. kvs = [(k, v')])" by (rule castUpdate_Inr)
    then show ?thesis using Cons kv Inr by (auto simp: rights_Cons)
  qed
qed

lemma cast_distinct:
  "distinct (map fst u) \<Longrightarrow> distinct (map fst (concat (rights (map castUpdate u))))"
proof (induction u)
  case Nil
  then show ?case by (simp add: rights_def)
next
  case (Cons kv u)
  obtain k v where kv: "kv = (k, v)" by (cases kv)
  define rest where "rest = concat (rights (map castUpdate u))"
  have rest: "distinct (map fst rest)"
    using Cons by (simp add: rest_def)
  have fresh: "k \<notin> set (map fst rest)"
    using Cons.prems kv cast_keys [of u] by (auto simp: rest_def)
  show ?case
  proof (cases "castUpdate (k, v)")
    case (Inl a)
    then have "concat (rights (map castUpdate (kv # u))) = rest"
      using kv by (simp add: rights_Cons rest_def)
    then show ?thesis using rest by simp
  next
    case (Inr kvs)
    then have "kvs = [] \<or> (\<exists>v'. kvs = [(k, v')])" by (rule castUpdate_Inr)
    moreover have "concat (rights (map castUpdate (kv # u))) = kvs @ rest"
      using kv Inr by (simp add: rights_Cons rest_def)
    ultimately show ?thesis using rest fresh by force
  qed
qed

lemma cast_member:
  "(k, v) \<in> set u \<Longrightarrow> castUpdate (k, v) = Inr kvs \<Longrightarrow>
     set kvs \<subseteq> set (concat (rights (map castUpdate u)))"
  by (induction u) (auto simp: rights_Cons)

lemma cast_all_right:
  "lefts (map castUpdate u) = [] \<Longrightarrow> (k, v) \<in> set u \<Longrightarrow> \<exists>kvs. castUpdate (k, v) = Inr kvs"
  by (induction u) (auto simp: lefts_Cons split: sum.splits)

lemma castUpdate_free_text:
  assumes "k = ''title'' \<or> k = ''description'' \<or> k = ''assignedTo''"
  shows "castUpdate (k, JStr s) = Inr [(k, JStr (trim s))]"
    and "castUpdate (k, JArr xs) = Inl (k, JArr xs)"
  using assms
  by (auto simp: castUpdate_def bugSchema_def stringPath_def applySetters_def)

lemma castUpdate_enum:
  assumes "k = ''status'' \<or> k = ''priority''"
  shows "castUpdate (k, JStr s) = Inr [(k, JStr s)]"
  using assms
  by (auto simp: castUpdate_def bugSchema_def stringPath_def applySetters_def)

subsection \<open>The update object\<close>

lemma in_optional: "x \<in> set (if c then [y] else []) \<longleftrightarrow> c \<and> x = y"
  by auto

lemma updates_member:
  "(k, v) \<in> set (updates b) \<longleftrightarrow>
     (truthy (getProp b ''title'') \<and> (k, v) = (''title'', sanitizeInput (getProp b ''title'')))
   \<or> (truthy (getProp b ''description'')
        \<and> (k, v) = (''description'', sanitizeInput (getProp b ''description'')))
   \<or> (truthy (getProp b ''status'') \<and> (k, v) = (''status'', getProp b ''status''))
   \<or> (truthy (getProp b ''priority'') \<and> (k, v) = (''priority'', getProp b ''priority''))
   \<or> (getProp b ''assignedTo'' \<noteq> JUndefined
        \<and> (k, v) = (''assignedTo'', sanitizeInput (getProp b ''assignedTo'')))
   \<or> (truthy (getProp b ''tags'') \<and> (k, v) = (''tags'', getProp b ''tags''))"
  by (simp only: updates_def set_append Un_iff in_optional)

lemma truthy_defined: "truthy v \<Longrightarrow> v \<noteq> JUndefined"
  by auto

lemma updates_keys: "(k, v) \<in> set (updates b) \<Longrightarrow> getProp b k \<noteq> JUndefined"
  by (auto simp: updates_member dest: truthy_defined)

lemma updates_enum:
  assumes "k = ''status'' \<or> k = ''priority''" and "getProp b k = JStr s" and "s \<noteq> []"
  shows "(k, JStr s) \<in> set (updates b)"
  using assms by (elim disjE) (simp_all add: updates_member)

lemma updates_free_text:
  assumes "k = ''title'' \<or> k = ''description'' \<or> k = ''assignedTo''"
      and "if k = ''assignedTo'' then getProp b k \<noteq> JUndefined else truthy (getProp b k)"
  shows "(k, sanitizeInput (getProp b k)) \<in> set (updates b)"
  using assms by (elim disjE) (simp_all add: updates_member)

lemma updates_distinct: "distinct (map fst (updates b))"
  by (simp add: updates_def)

lemma findByIdAndUpdate_cases:
  assumes "castObjectId i = Some oid" and "find (hasId oid) d = Some bug"
  shows "(\<exists>err. Bug_findByIdAndUpdate e n i u \<lparr>opt_new = True, opt_runValidators = True\<rparr> d =
            (Inl err, d))
       \<or> (lefts (map castUpdate u) = []
          \<and> Bug_findByIdAndUpdate e n i u \<lparr>opt_new = True, opt_runValidators = True\<rparr> d =
              (Inr (Some (setProp (applySets (concat (rights (map castUpdate u))) bug)
                            ''updatedAt'' (JNum (now e)))),
               replaceFirst (hasId oid)
                 (setProp (applySets (concat (rights (map castUpdate u))) bug)
                    ''updatedAt'' (JNum (now e))) d))"
proof (cases "lefts (map castUpdate u)")
  case (Cons p ps)
  then show ?thesis using assms by (simp add: Bug_findByIdAndUpdate_def)
next
  case Nil
  show ?thesis
  proof (cases "updateFailures (concat (rights (map castUpdate u))) = []")
    case False
    then show ?thesis using Nil assms by (simp add: Bug_findByIdAndUpdate_def)
  next
    case True
    show ?thesis
    proof (cases "faults e n")
      case (Some err)
      then show ?thesis using Nil True assms by (simp add: Bug_findByIdAndUpdate_def)
    next
      case None
      then show ?thesis using Nil True assms by (simp add: Bug_findByIdAndUpdate_def Let_def)
    qed
  qed
qed

subsection \<open>Invalid enumerated values at the storage layer\<close>

lemma updateFailures_member:
  assumes "(k, JStr s) \<in> set sets"
      and "(k = ''status'' \<and> \<not> isValidStatus (JStr s)) \<or> (k = ''priority'' \<and> \<not> isValidPriority (JStr s))"
  shows "updateFailures sets \<noteq> []"
proof -
  have "(case map_of bugSchema k of
           None \<Rightarrow> []
         | Some sch \<Rightarrow> (case validatePath k sch (JStr s) of None \<Rightarrow> [] | Some m \<Rightarrow> [(k, m)])) \<noteq> []"
    using assms(2)
    by (elim disjE)
       (simp_all add: bugSchema_def stringPath_def validatePath_def orElse_def
          isValidStatus_def isValidPriority_def)
  then have "\<exists>kv\<in>set sets.
      (case map_of bugSchema (fst kv) of
         None \<Rightarrow> []
       | Some sch \<Rightarrow> (case validatePath (fst kv) sch (snd kv) of None \<Rightarrow> [] | Some m \<Rightarrow> [(fst kv, m)]))
      \<noteq> []"
    using assms(1) by (intro bexI [of _ "(k, JStr s)"]) (auto split: option.splits)
  then show ?thesis
    unfolding updateFailures_def by simp
qed

lemma invalid_enum_not_applied:
  assumes "(k, JStr s) \<in> set u"
      and "(k = ''status'' \<and> \<not> isValidStatus (JStr s)) \<or> (k = ''priority'' \<and> \<not> isValidPriority (JStr s))"
  shows "\<exists>err. Bug_findByIdAndUpdate e n i u \<lparr>opt_new = True, opt_runValidators = True\<rparr> d =
            (Inl err, d)"
proof (cases "castObjectId i")
  case None
  then show ?thesis by (simp add: Bug_findByIdAndUpdate_def)
next
  case (Some oid)
  show ?thesis
  proof (cases "lefts (map castUpdate u)")
    case (Cons p ps)
    then show ?thesis using Some by (simp add: Bug_findByIdAndUpdate_def)
  next
    case Nil
    have "castUpdate (k, JStr s) = Inr [(k, JStr s)]"
      using assms(2) by (intro castUpdate_enum) auto
    then have "(k, JStr s) \<in> set (concat (rights (map castUpdate u)))"
      using cast_member [OF assms(1)] by auto
    then have "updateFailures (concat (rights (map castUpdate u))) \<noteq> []"
      using assms(2) by (rule updateFailures_member)
    then show ?thesis
      using Some Nil by (simp add: Bug_findByIdAndUpdate_def)
  qed
qed

lemma catchValidation_no_response: "catchValidation err \<noteq> Response n b"
  by (simp add: catchValidation_def split: option.splits)

lemma updateBug_invalid_enum:
  assumes "getProp (req_body req) k = JStr s" and "s \<noteq> []"
      and "(k = ''status'' \<and> \<not> isValidStatus (JStr s)) \<or> (k = ''priority'' \<and> \<not> isValidPriority (JStr s))"
  shows "snd (updateBug req e d) = d \<and> (\<forall>n b. fst (updateBug req e d) \<noteq> Response n b)"
proof -
  have "(k, JStr s) \<in> set (updates (req_body req))"
    using assms by (intro updates_enum) auto
  then obtain err where
    "Bug_findByIdAndUpdate e 1 (getProp (req_params req) ''id'') (updates (req_body req))
       \<lparr>opt_new = True, opt_runValidators = True\<rparr> d = (Inl err, d)"
    using invalid_enum_not_applied [OF _ assms(3)] by blast
  then show ?thesis
    by (auto simp: updateBug_def catchValidation_no_response split: sum.splits option.splits)
qed

subsection \<open>The stored record after an update\<close>

lemma frame_omitted:
  assumes acc: "runValidation (bugIdValidation @ updateBugValidation) req0 = (req, [])"
      and om: "getProp (req_body req0) k = JUndefined"
  shows "getProp (applySets (concat (rights (map castUpdate (updates (req_body req))))) bug) k =
           getProp bug k"
proof -
  have "req = fst (runValidation (bugIdValidation @ updateBugValidation) req0)"
    using acc by simp
  then have "getProp (req_body req) k = JUndefined"
    using om by (simp add: update_chains_undefined_iff)
  then have "k \<notin> fst ` set (updates (req_body req))"
    using updates_keys [of k _ "req_body req"] by auto
  then have "k \<notin> fst ` set (concat (rights (map castUpdate (updates (req_body req)))))"
    using cast_keys [of "updates (req_body req)"] by blast
  then show ?thesis by (rule applySets_other)
qed

lemma sanitized_string:
  assumes "sanitizeInput (JStr t) = JStr s"
  shows "CHR ''<'' \<notin> set (trim s)" and "CHR ''>'' \<notin> set (trim s)" and "length (trim s) \<le> 1000"
proof -
  have s: "s = take 1000 (stripAngle (trim t))"
    using assms by (simp add: sanitizeInput_def)
  have "set s \<subseteq> set (stripAngle (trim t))"
    unfolding s by (rule set_take_subset)
  then have "CHR ''<'' \<notin> set s" "CHR ''>'' \<notin> set s"
    by (auto simp: stripAngle_def)
  then show "CHR ''<'' \<notin> set (trim s)" and "CHR ''>'' \<notin> set (trim s)"
    using set_trim_subset [of s] by auto
  have "length s \<le> 1000" unfolding s by simp
  then show "length (trim s) \<le> 1000"
    using length_trim_le [of s] by simp
qed

lemma persisted_free_text:
  assumes acc: "runValidation (bugIdValidation @ updateBugValidation) req0 = (req, [])"
      and k: "k = ''title'' \<or> k = ''description'' \<or> k = ''assignedTo''"
      and sup: "getProp (req_body req0) k \<noteq> JUndefined"
      and ok: "lefts (map castUpdate (updates (req_body req))) = []"
  shows "\<exists>s. sanitizeInput (getProp (req_body req) k) = JStr s
           \<and> getProp (applySets (concat (rights (map castUpdate (updates (req_body req))))) bug) k =
               JStr (trim s)
           \<and> CHR ''<'' \<notin> set (trim s) \<and> CHR ''>'' \<notin> set (trim s) \<and> length (trim s) \<le> 1000"
proof -
  let ?v = "getProp (req_body req) k"
  let ?u = "updates (req_body req)"
  have shape: "(\<exists>t. ?v = JStr t \<and> (k = ''assignedTo'' \<or> t \<noteq> [])) \<or> (\<exists>xs. ?v = JArr xs)"
    using acc k sup by (rule accepted_free_text)
  then have "if k = ''assignedTo'' then ?v \<noteq> JUndefined else truthy ?v"
    by auto
  then have mem: "(k, sanitizeInput ?v) \<in> set ?u"
    using k by (intro updates_free_text)
  then obtain kvs where kvs: "castUpdate (k, sanitizeInput ?v) = Inr kvs"
    using cast_all_right [OF ok] by blast
  have "\<not> (\<exists>xs. ?v = JArr xs)"
  proof
    assume "\<exists>xs. ?v = JArr xs"
    then obtain xs where "?v = JArr xs" ..
    then have "castUpdate (k, sanitizeInput ?v) = Inl (k, sanitizeInput ?v)"
      using castUpdate_free_text(2) [OF k] by (simp add: sanitizeInput_def)
    then show False using kvs by simp
  qed
  then obtain t where t: "?v = JStr t" using shape by blast
  obtain s where s: "sanitizeInput (JStr t) = JStr s"
    by (simp add: sanitizeInput_def)
  have "castUpdate (k, JStr s) = Inr [(k, JStr (trim s))]"
    using k by (rule castUpdate_free_text(1))
  then have "(k, JStr (trim s)) \<in> set (concat (rights (map castUpdate ?u)))"
    using cast_member [of k "JStr s" ?u] mem t s by simp
  moreover have "distinct (map fst (concat (rights (map castUpdate ?u))))"
    by (intro cast_distinct updates_distinct)
  ultimately have "getProp (applySets (concat (rights (map castUpdate ?u))) bug) k = JStr (trim s)"
    by (intro applySets_member)
  then show ?thesis
    using t s sanitized_string [OF s] by auto
qed

lemma find_split:
  "find P xs = Some x \<Longrightarrow>
     \<exists>pre post. xs = pre @ x # post \<and> replaceFirst P y xs = pre @ y # post"
proof (induction xs)
  case Nil
  then show ?case by simp
next
  case (Cons a xs)
  show ?case
  proof (cases "P a")
    case True
    then have "a = x" using Cons.prems by simp
    then have "a # xs = [] @ x # xs \<and> replaceFirst P y (a # xs) = [] @ y # xs"
      using True by simp
    then show ?thesis by blast
  next
    case False
    then have "find P xs = Some x" using Cons.prems by simp
    then obtain pre post where "xs = pre @ x # post" "replaceFirst P y xs = pre @ y # post"
      using Cons.IH by blast
    then have "a # xs = (a # pre) @ x # post \<and> replaceFirst P y (a # xs) = (a # pre) @ y # post"
      using False by simp
    then show ?thesis by blast
  qed
qed

lemma findById_found:
  assumes "Bug_findById e n i d = Inr (Some bug)"
  shows "\<exists>oid. faults e n = None \<and> castObjectId i = Some oid \<and> find (hasId oid) d = Some bug"
  using assms by (auto simp: Bug_findById_def split: option.splits)

text \<open>
  C2. Take an update request that the update route accepts (the identifier chain and the
  update rules report nothing; \<open>req\<close> is the request as the chains hand it to \<open>updateBug\<close>)
  and whose identifier names a stored record \<open>bug\<close>. Then either the storage call fails and
  the collection is unchanged, or \<open>updateBug\<close> answers 200 with the formatted new record
  \<open>bug'\<close>, which takes the place of \<open>bug\<close> in the collection while every other record stays,
  and: every field other than \<open>updatedAt\<close> that the request omits has in \<open>bug'\<close> the value it
  has in \<open>bug\<close>; \<open>updatedAt\<close> is the time of the update; and each of \<open>title\<close>, \<open>description\<close> and
  \<open>assignedTo\<close> that the request supplies is stored as the trimmed result of \<open>sanitizeInput\<close>
  on the value handed to \<open>updateBug\<close>, a string without angle brackets and of at most 1000
  code units. Moreover the storage layer validates the enumerated fields again, since
  \<open>updateBug\<close> asks for \<open>runValidators\<close>: whatever request reaches \<open>updateBug\<close>, a non-empty
  string outside the enumeration as \<open>status\<close> or \<open>priority\<close> is never persisted and never
  answered with a success.
\<close>

theorem update_changes_only_supplied_fields:
  assumes accepted: "runValidation (bugIdValidation @ updateBugValidation) req0 = (req, [])"
      and found: "Bug_findById e 0 (getProp (req_params req0) ''id'') d = Inr (Some bug)"
  shows "((\<exists>err. updateBug req e d = (err, d) \<and> (\<forall>n b. err \<noteq> Response n b))
        \<or> (\<exists>bug' pre post.
              updateBug req e d =
                (Response 200 [(''success'', JBool True), (''data'', JObj (formatBugResponse bug'))],
                 pre @ bug' # post)
            \<and> d = pre @ bug # post
            \<and> (\<forall>k. k \<noteq> ''updatedAt'' \<and> getProp (req_body req0) k = JUndefined \<longrightarrow>
                     getProp bug' k = getProp bug k)
            \<and> getProp bug' ''updatedAt'' = JNum (now e)
            \<and> list_all
                 (\<lambda>k. getProp (req_body req0) k = JUndefined
                    \<or> (\<exists>s. sanitizeInput (getProp (req_body req) k) = JStr s
                          \<and> getProp bug' k = JStr (trim s)
                          \<and> CHR ''<'' \<notin> set (trim s) \<and> CHR ''>'' \<notin> set (trim s)
                          \<and> length (trim s) \<le> 1000))
                 [''title'', ''description'', ''assignedTo'']))
       \<and> (\<forall>req1 e1 d1 k s.
             getProp (req_body req1) k = JStr s \<and> s \<noteq> []
             \<and> ((k = ''status'' \<and> \<not> isValidStatus (JStr s))
                \<or> (k = ''priority'' \<and> \<not> isValidPriority (JStr s))) \<longrightarrow>
             snd (updateBug req1 e1 d1) = d1 \<and> (\<forall>n b. fst (updateBug req1 e1 d1) \<noteq> Response n b))"
proof -
  let ?i = "getProp (req_params req0) ''id''"
  let ?u = "updates (req_body req)"
  let ?sets = "concat (rights (map castUpdate ?u))"
  let ?bug' = "setProp (applySets ?sets bug) ''updatedAt'' (JNum (now e))"
  let ?stored = "\<lambda>bug' k. getProp (req_body req0) k = JUndefined
                    \<or> (\<exists>s. sanitizeInput (getProp (req_body req) k) = JStr s
                          \<and> getProp bug' k = JStr (trim s)
                          \<and> CHR ''<'' \<notin> set (trim s) \<and> CHR ''>'' \<notin> set (trim s)
                          \<and> length (trim s) \<le> 1000)"
  obtain oid where oid: "castObjectId ?i = Some oid" "find (hasId oid) d = Some bug"
    using findById_found [OF found] by blast
  have params: "req_params req = req_params req0"
    using accepted update_chains_params [of req0] by simp
  have run: "updateBug req e d =
      (case Bug_findByIdAndUpdate e 1 ?i ?u \<lparr>opt_new = True, opt_runValidators = True\<rparr> d of
         (Inl error, d') \<Rightarrow> (catchValidation error, d')
       | (Inr None, d') \<Rightarrow>
           (catchValidation (TypeError ''Cannot read properties of null (reading _id)''), d')
       | (Inr (Some updatedBug), d') \<Rightarrow>
           (Response 200 (success [(''data'', JObj (formatBugResponse updatedBug))]), d'))"
    using found by (simp add: updateBug_def params)
  have main: "(\<exists>err. updateBug req e d = (err, d) \<and> (\<forall>n b. err \<noteq> Response n b))
        \<or> (\<exists>bug' pre post.
              updateBug req e d =
                (Response 200 [(''success'', JBool True), (''data'', JObj (formatBugResponse bug'))],
                 pre @ bug' # post)
            \<and> d = pre @ bug # post
            \<and> (\<forall>k. k \<noteq> ''updatedAt'' \<and> getProp (req_body req0) k = JUndefined \<longrightarrow>
                     getProp bug' k = getProp bug k)
            \<and> getProp bug' ''updatedAt'' = JNum (now e)
            \<and> list_all (?stored bug') [''title'', ''description'', ''assignedTo''])"
  proof (cases "\<exists>err. Bug_findByIdAndUpdate e 1 ?i ?u
            \<lparr>opt_new = True, opt_runValidators = True\<rparr> d = (Inl err, d)")
    case True
    then obtain err where "Bug_findByIdAndUpdate e 1 ?i ?u
            \<lparr>opt_new = True, opt_runValidators = True\<rparr> d = (Inl err, d)" ..
    then have "updateBug req e d = (catchValidation err, d)"
      unfolding run by simp
    moreover have "\<forall>n b. catchValidation err \<noteq> Response n b"
      by (simp add: catchValidation_no_response)
    ultimately have "\<exists>err. updateBug req e d = (err, d) \<and> (\<forall>n b. err \<noteq> Response n b)"
      by (intro exI [of _ "catchValidation err"] conjI)
    then show ?thesis by (rule disjI1)
  next
    case False
    have ok: "lefts (map castUpdate ?u) = []"
      and res: "Bug_findByIdAndUpdate e 1 ?i ?u \<lparr>opt_new = True, opt_runValidators = True\<rparr> d =
                  (Inr (Some ?bug'), replaceFirst (hasId oid) ?bug' d)"
      using findByIdAndUpdate_cases [OF oid, of e 1 ?u] False by auto
    obtain pre post where split: "d = pre @ bug # post"
        "replaceFirst (hasId oid) ?bug' d = pre @ ?bug' # post"
      using find_split [OF oid(2)] by blast
    have out: "updateBug req e d =
        (Response 200 [(''success'', JBool True), (''data'', JObj (formatBugResponse ?bug'))],
         pre @ ?bug' # post)"
      unfolding run res split(2) success_def by simp
    have frame: "\<forall>k. k \<noteq> ''updatedAt'' \<and> getProp (req_body req0) k = JUndefined \<longrightarrow>
                     getProp ?bug' k = getProp bug k"
    proof (intro allI impI)
      fix k assume "k \<noteq> ''updatedAt'' \<and> getProp (req_body req0) k = JUndefined"
      then show "getProp ?bug' k = getProp bug k"
        using frame_omitted [OF accepted, of k bug] by (simp add: getProp_setProp)
    qed
    have stamp: "getProp ?bug' ''updatedAt'' = JNum (now e)"
      by (simp add: getProp_setProp)
    have ftext: "?stored ?bug' k"
      if k: "k = ''title'' \<or> k = ''description'' \<or> k = ''assignedTo''" for k
    proof (cases "getProp (req_body req0) k = JUndefined")
      case True
      then show ?thesis by (rule disjI1)
    next
      case False
      have "k \<noteq> ''updatedAt''" using k by auto
      then have "getProp ?bug' k = getProp (applySets ?sets bug) k"
        by (simp add: getProp_setProp)
      then show ?thesis
        using persisted_free_text [OF accepted k False ok, of bug]
        by (intro disjI2) simp
    qed
    have stored: "list_all (?stored ?bug') [''title'', ''description'', ''assignedTo'']"
      using ftext [of "''title''"] ftext [of "''description''"] ftext [of "''assignedTo''"]
      by (simp del: ex_simps)
    show ?thesis
      by (intro disjI2 exI [of _ ?bug'] exI [of _ pre] exI [of _ post] conjI)
         (fact out split(1) frame stamp stored)+
  qed
  have rest: "\<forall>req1 e1 d1 k s.
             getProp (req_body req1) k = JStr s \<and> s \<noteq> []
             \<and> ((k = ''status'' \<and> \<not> isValidStatus (JStr s))
                \<or> (k = ''priority'' \<and> \<not> isValidPriority (JStr s))) \<longrightarrow>
             snd (updateBug req1 e1 d1) = d1 \<and> (\<forall>n b. fst (updateBug req1 e1 d1) \<noteq> Response n b)"
  proof (intro allI impI)
    fix req1 :: request and e1 d1 k s
    assume a: "getProp (req_body req1) k = JStr s \<and> s \<noteq> []
             \<and> ((k = ''status'' \<and> \<not> isValidStatus (JStr s))
                \<or> (k = ''priority'' \<and> \<not> isValidPriority (JStr s)))"
    show "snd (updateBug req1 e1 d1) = d1 \<and> (\<forall>n b. fst (updateBug req1 e1 d1) \<noteq> Response n b)"
      by (rule updateBug_invalid_enum [of req1 k s]) (use a in simp_all)
  qed
  from main rest show ?thesis by (rule conjI)
qed

lemma example_update_accepted:
  "runValidation (bugIdValidation @ updateBugValidation)
     \<lparr>req_params = [(''id'', JStr ''507f1f77bcf86cd799439011'')], req_query = [],
      req_body = [(''title'', JStr ''  <b>New</b> title ''), (''status'', JStr ''resolved'')]\<rparr> =
   (\<lparr>req_params = [(''id'', JStr ''507f1f77bcf86cd799439011'')], req_query = [],
     req_body = [(''title'', JStr ''<b>New</b> title''), (''status'', JStr ''resolved'')]\<rparr>, [])"
  by (simp add: bugIdValidation_def updateBugValidation_def eval_chains eval_strings
        isMongoId_example)

lemma example_castObjectId:
  "castObjectId (JStr ''507f1f77bcf86cd799439011'') = Some ''507f1f77bcf86cd799439011''"
  by (simp add: castObjectId_def isObjectIdHex_example lowerHex_def)

lemma example_found:
  "Bug_findById (quietStore 9 ''507f1f77bcf86cd799439012'') 0
     (getProp (req_params
        \<lparr>req_params = [(''id'', JStr ''507f1f77bcf86cd799439011'')], req_query = [],
         req_body = [(''title'', JStr ''  <b>New</b> title ''), (''status'', JStr ''resolved'')]\<rparr>) ''id'')
     [[(''_id'', JStr ''507f1f77bcf86cd799439011''), (''title'', JStr ''Crash''),
       (''description'', JStr ''It crashes on start''), (''status'', JStr ''open''),
       (''priority'', JStr ''high''), (''reporter'', JStr ''Ann''), (''tags'', JArr []),
       (''createdAt'', JNum 5), (''updatedAt'', JNum 5)]] =
   Inr (Some [(''_id'', JStr ''507f1f77bcf86cd799439011''), (''title'', JStr ''Crash''),
       (''description'', JStr ''It crashes on start''), (''status'', JStr ''open''),
       (''priority'', JStr ''high''), (''reporter'', JStr ''Ann''), (''tags'', JArr []),
       (''createdAt'', JNum 5), (''updatedAt'', JNum 5)])"
  by (simp add: Bug_findById_def getProp_Cons example_castObjectId hasId_def quietStore_simps)

lemma example_update_result:
  "updateBug
     \<lparr>req_params = [(''id'', JStr ''507f1f77bcf86cd799439011'')], req_query = [],
      req_body = [(''title'', JStr ''<b>New</b> title''), (''status'', JStr ''resolved'')]\<rparr>
     (quietStore 9 ''507f1f77bcf86cd799439012'')
     [[(''_id'', JStr ''507f1f77bcf86cd799439011''), (''title'', JStr ''Crash''),
       (''description'', JStr ''It crashes on start''), (''status'', JStr ''open''),
       (''priority'', JStr ''high''), (''reporter'', JStr ''Ann''), (''tags'', JArr []),
       (''createdAt'', JNum 5), (''updatedAt'', JNum 5)]] =
   (Response 200
      [(''success'', JBool True),
       (''data'', JObj [(''id'', JStr ''507f1f77bcf86cd799439011''), (''title'', JStr ''bNew/b title''),
                       (''description'', JStr ''It crashes on start''), (''status'', JStr ''resolved''),
                       (''priority'', JStr ''high''), (''reporter'', JStr ''Ann''),
                       (''assignedTo'', JUndefined), (''tags'', JArr []), (''createdAt'', JNum 5),
                       (''updatedAt'', JNum 9)])],
    [[(''_id'', JStr ''507f1f77bcf86cd799439011''), (''title'', JStr ''bNew/b title''),
      (''description'', JStr ''It crashes on start''), (''status'', JStr ''resolved''),
      (''priority'', JStr ''high''), (''reporter'', JStr ''Ann''), (''tags'', JArr []),
      (''createdAt'', JNum 5), (''updatedAt'', JNum 9)]])"
  by (simp add: updateBug_def Bug_findById_def Bug_findByIdAndUpdate_def example_castObjectId
        hasId_def updates_def castUpdate_def applySets_def updateFailures_def lefts_def rights_def
        success_def formatBugResponse_def eval_strings eval_storage getProp_def Let_def)

theorem update_changes_only_supplied_fields_witness:
  "runValidation (bugIdValidation @ updateBugValidation)
     \<lparr>req_params = [(''id'', JStr ''507f1f77bcf86cd799439011'')], req_query = [],
      req_body = [(''title'', JStr ''  <b>New</b> title ''), (''status'', JStr ''resolved'')]\<rparr> =
   (\<lparr>req_params = [(''id'', JStr ''507f1f77bcf86cd799439011'')], req_query = [],
     req_body = [(''title'', JStr ''<b>New</b> title''), (''status'', JStr ''resolved'')]\<rparr>, [])
   \<and> Bug_findById (quietStore 9 ''507f1f77bcf86cd799439012'') 0
       (JStr ''507f1f77bcf86cd799439011'')
       [[(''_id'', JStr ''507f1f77bcf86cd799439011''), (''title'', JStr ''Crash''),
         (''description'', JStr ''It crashes on start''), (''status'', JStr ''open''),
         (''priority'', JStr ''high''), (''reporter'', JStr ''Ann''), (''tags'', JArr []),
         (''createdAt'', JNum 5), (''updatedAt'', JNum 5)]] =
     Inr (Some [(''_id'', JStr ''507f1f77bcf86cd799439011''), (''title'', JStr ''Crash''),
         (''description'', JStr ''It crashes on start''), (''status'', JStr ''open''),
         (''priority'', JStr ''high''), (''reporter'', JStr ''Ann''), (''tags'', JArr []),
         (''createdAt'', JNum 5), (''updatedAt'', JNum 5)])
   \<and> updateBug
       \<lparr>req_params = [(''id'', JStr ''507f1f77bcf86cd799439011'')], req_query = [],
        req_body = [(''title'', JStr ''<b>New</b> title''), (''status'', JStr ''resolved'')]\<rparr>
       (quietStore 9 ''507f1f77bcf86cd799439012'')
       [[(''_id'', JStr ''507f1f77bcf86cd799439011''), (''title'', JStr ''Crash''),
         (''description'', JStr ''It crashes on start''), (''status'', JStr ''open''),
         (''priority'', JStr ''high''), (''reporter'', JStr ''Ann''), (''tags'', JArr []),
         (''createdAt'', JNum 5), (''updatedAt'', JNum 5)]] =
     (Response 200
        [(''success'', JBool True),
         (''data'', JObj [(''id'', JStr ''507f1f77bcf86cd799439011''), (''title'', JStr ''bNew/b title''),
                         (''description'', JStr ''It crashes on start''), (''status'', JStr ''resolved''),
                         (''priority'', JStr ''high''), (''reporter'', JStr ''Ann''),
                         (''assignedTo'', JUndefined), (''tags'', JArr []), (''createdAt'', JNum 5),
                         (''updatedAt'', JNum 9)])],
      [[(''_id'', JStr ''507f1f77bcf86cd799439011''), (''title'', JStr ''bNew/b title''),
        (''description'', JStr ''It crashes on start''), (''status'', JStr ''resolved''),
        (''priority'', JStr ''high''), (''reporter'', JStr ''Ann''), (''tags'', JArr []),
        (''createdAt'', JNum 5), (''updatedAt'', JNum 9)]])
   \<and> \<not> isValidStatus (JStr ''pending'')
   \<and> snd (updateBug
       \<lparr>req_params = [(''id'', JStr ''507f1f77bcf86cd799439011'')], req_query = [],
        req_body = [(''status'', JStr ''pending'')]\<rparr>
       (quietStore 9 ''507f1f77bcf86cd799439012'')
       [[(''_id'', JStr ''507f1f77bcf86cd799439011''), (''title'', JStr ''Crash''),
         (''description'', JStr ''It crashes on start''), (''status'', JStr ''open''),
         (''priority'', JStr ''high''), (''reporter'', JStr ''Ann''), (''tags'', JArr []),
         (''createdAt'', JNum 5), (''updatedAt'', JNum 5)]]) =
     [[(''_id'', JStr ''507f1f77bcf86cd799439011''), (''title'', JStr ''Crash''),
       (''description'', JStr ''It crashes on start''), (''status'', JStr ''open''),
       (''priority'', JStr ''high''), (''reporter'', JStr ''Ann''), (''tags'', JArr []),
       (''createdAt'', JNum 5), (''updatedAt'', JNum 5)]]"
proof -
  let ?e = "(quietStore 9 ''507f1f77bcf86cd799439012'')"
  let ?d = "[[(''_id'', JStr ''507f1f77bcf86cd799439011''), (''title'', JStr ''Crash''),
         (''description'', JStr ''It crashes on start''), (''status'', JStr ''open''),
         (''priority'', JStr ''high''), (''reporter'', JStr ''Ann''), (''tags'', JArr []),
         (''createdAt'', JNum 5), (''updatedAt'', JNum 5)]]"
  let ?bad = "\<lparr>req_params = [(''id'', JStr ''507f1f77bcf86cd799439011'')], req_query = [],
        req_body = [(''status'', JStr ''pending'')]\<rparr>"
  note t = update_changes_only_supplied_fields [OF example_update_accepted example_found]
  have n: "\<not> isValidStatus (JStr ''pending'')"
    by (simp add: isValidStatus_def)
  have "getProp (req_body ?bad) ''status'' = JStr ''pending'' \<and> ''pending'' \<noteq> []
        \<and> ((''status'' = ''status'' \<and> \<not> isValidStatus (JStr ''pending''))
           \<or> (''status'' = ''priority'' \<and> \<not> isValidPriority (JStr ''pending'')))"
    using n by (simp add: getProp_Cons)
  then have "snd (updateBug ?bad ?e ?d) = ?d"
    using t [THEN conjunct2, rule_format, of ?bad "''status''" "''pending''" ?e ?d] by blast
  then show ?thesis
    using example_update_accepted example_found example_update_result n
    by (simp add: getProp_Cons)
qed

section \<open>The enumerations as an invariant of the collection\<close>

lemma castString_truthy:
  "truthy v \<Longrightarrow> castString v = Some v' \<Longrightarrow> \<exists>s. v' = JStr s"
proof (cases v)
  case (JObj ps)
  assume "castString v = Some v'"
  then show ?thesis
    using JObj by (auto split: jsval.splits if_splits dest: sym)
qed auto

lemma validatePath_enum:
  "validatePath p sch (JStr s) = None \<Longrightarrow> sp_enum sch = Some vs \<Longrightarrow> s \<in> set vs"
  by (auto simp: validatePath_def orElse_def split: option.splits if_splits prod.splits)

lemma getProp_member:
  "distinct (map fst ps) \<Longrightarrow> (k, v) \<in> set ps \<Longrightarrow> getProp ps k = v"
  by (simp add: getProp_def)

lemma buildPath_key:
  "(case buildPath e data (p, sch) of Inl a \<Rightarrow> fst a | Inr b \<Rightarrow> fst b) = p"
  by (simp add: buildPath_def Let_def split: option.splits)

lemma buildTags_key:
  "(case buildTags e data of Inl a \<Rightarrow> fst a | Inr b \<Rightarrow> fst b) = ''tags''"
  by (simp add: buildTags_def split: option.splits)

lemma rights_keys:
  "lefts xs = [] \<Longrightarrow>
     map fst (rights xs) = map (\<lambda>x. case x of Inl a \<Rightarrow> fst a | Inr b \<Rightarrow> fst b) xs"
proof (induction xs)
  case Nil
  then show ?case by (simp add: rights_def)
next
  case (Cons x xs)
  then show ?case by (cases x) (simp_all add: lefts_Cons rights_Cons)
qed

lemma built_keys:
  assumes "lefts (map (buildPath e data) bugSchema @ [buildTags e data]) = []"
  shows "map fst (rights (map (buildPath e data) bugSchema @ [buildTags e data])) =
           [''title'', ''description'', ''status'', ''priority'', ''reporter'', ''assignedTo'', ''tags'']"
  unfolding rights_keys [OF assms]
  by (simp add: bugSchema_def buildPath_key buildTags_key)

lemma buildPath_enum:
  assumes "buildPath e data (p, sch) = Inr kv" and "truthy (getProp data p)"
      and "sp_enum sch = Some vs" and "\<not> sp_trim sch"
  shows "\<exists>s. kv = (p, JStr s) \<and> s \<in> set vs"
proof -
  have d: "getProp data p \<noteq> JUndefined" using assms(2) by auto
  obtain v where v: "castString (getProp data p) = Some v"
    and ok: "validatePath p sch (applySetters sch v) = None"
    and kv: "kv = (p, applySetters sch v)"
    using assms(1) d by (auto simp: buildPath_def Let_def split: option.splits)
  obtain s where s: "v = JStr s" using castString_truthy [OF assms(2) v] by blast
  have "applySetters sch v = JStr s" using s assms(4) by (simp add: applySetters_def)
  then show ?thesis using ok kv validatePath_enum [OF _ assms(3)] by auto
qed

lemma Bug_create_Inr:
  assumes "Bug_create e n data d = (Inr doc, d')"
  shows "lefts (map (buildPath e data) bugSchema @ [buildTags e data]) = []
       \<and> doc = filter isDefined
                 ([(''_id'', JStr (freshId e))] @
                  rights (map (buildPath e data) bugSchema @ [buildTags e data]) @
                  [(''createdAt'', JNum (now e)), (''updatedAt'', JNum (now e))])
       \<and> d' = d @ [doc]"
proof (cases "lefts (map (buildPath e data) bugSchema @ [buildTags e data]) = []")
  case False
  then show ?thesis using assms by (simp add: Bug_create_def Let_def)
next
  case True
  show ?thesis
  proof (cases "faults e n")
    case (Some err)
    then show ?thesis using assms True by (simp add: Bug_create_def Let_def)
  next
    case None
    then show ?thesis using assms True by (simp add: Bug_create_def Let_def) blast
  qed
qed

lemma Bug_create_Inl:
  assumes "Bug_create e n data d = (Inl err, d')"
  shows "d' = d"
  using assms by (auto simp: Bug_create_def Let_def split: option.splits if_splits)

lemma all_right:
  assumes "lefts xs = []" and "x \<in> set xs"
  shows "\<exists>kv. x = Inr kv \<and> kv \<in> set (rights xs)"
proof (cases x)
  case (Inl a)
  then have "a \<in> set (lefts xs)" using assms(2) unfolding lefts_def by force
  then show ?thesis using assms(1) by simp
next
  case (Inr kv)
  then have "kv \<in> set (rights xs)" using assms(2) unfolding rights_def by force
  then show ?thesis using Inr by simp
qed

lemma schema_enum_paths:
  "(''status'', stringPath\<lparr>sp_enum := Some [''open'', ''in-progress'', ''resolved'', ''closed''],
                           sp_default := JStr ''open''\<rparr>) \<in> set bugSchema"
  "(''priority'', stringPath\<lparr>sp_enum := Some [''low'', ''medium'', ''high'', ''critical''],
                             sp_default := JStr ''medium''\<rparr>) \<in> set bugSchema"
  by (simp_all add: bugSchema_def)

lemma created_doc_enums:
  assumes "Bug_create e n (bugData b) d = (Inr doc, d')"
  shows "d' = d @ [doc] \<and> isValidStatus (getProp doc ''status'')
         \<and> isValidPriority (getProp doc ''priority'')"
proof -
  define data where "data = bugData b"
  define built where "built = map (buildPath e data) bugSchema @ [buildTags e data]"
  define st where "st = stringPath\<lparr>sp_enum := Some [''open'', ''in-progress'', ''resolved'', ''closed''],
                           sp_default := JStr ''open''\<rparr>"
  define pr where "pr = stringPath\<lparr>sp_enum := Some [''low'', ''medium'', ''high'', ''critical''],
                             sp_default := JStr ''medium''\<rparr>"
  have ok: "lefts built = []"
    and doc: "doc = filter isDefined
                 ([(''_id'', JStr (freshId e))] @ rights built @
                  [(''createdAt'', JNum (now e)), (''updatedAt'', JNum (now e))])"
    and d': "d' = d @ [doc]"
    using Bug_create_Inr [OF assms] by (simp_all add: built_def data_def)
  have keys: "map fst (rights built) =
      [''title'', ''description'', ''status'', ''priority'', ''reporter'', ''assignedTo'', ''tags'']"
    using ok unfolding built_def by (rule built_keys)
  have dist: "distinct (map fst doc)"
    unfolding doc by (intro distinct_map_filter) (simp add: keys)
  have mem: "buildPath e data (''status'', st) \<in> set built"
            "buildPath e data (''priority'', pr) \<in> set built"
    using schema_enum_paths unfolding built_def st_def pr_def by auto
  have tr: "truthy (getProp data ''status'')" "truthy (getProp data ''priority'')"
    by (simp_all add: data_def bugData_def getProp_Cons jsOr_def)
  have en: "sp_enum st = Some [''open'', ''in-progress'', ''resolved'', ''closed'']" "\<not> sp_trim st"
           "sp_enum pr = Some [''low'', ''medium'', ''high'', ''critical'']" "\<not> sp_trim pr"
    by (simp_all add: st_def pr_def stringPath_def)
  obtain kv1 where kv1: "buildPath e data (''status'', st) = Inr kv1" "kv1 \<in> set (rights built)"
    using all_right [OF ok mem(1)] by blast
  obtain kv2 where kv2: "buildPath e data (''priority'', pr) = Inr kv2" "kv2 \<in> set (rights built)"
    using all_right [OF ok mem(2)] by blast
  obtain s where s: "kv1 = (''status'', JStr s)"
      "s \<in> set [''open'', ''in-progress'', ''resolved'', ''closed'']"
    using buildPath_enum [OF kv1(1) tr(1) en(1,2)] by blast
  obtain p where p: "kv2 = (''priority'', JStr p)"
      "p \<in> set [''low'', ''medium'', ''high'', ''critical'']"
    using buildPath_enum [OF kv2(1) tr(2) en(3,4)] by blast
  have "(''status'', JStr s) \<in> set doc" "(''priority'', JStr p) \<in> set doc"
    using kv1(2) kv2(2) s(1) p(1) unfolding doc by (simp_all add: isDefined_def)
  then have "getProp doc ''status'' = JStr s" "getProp doc ''priority'' = JStr p"
    using dist by (simp_all add: getProp_member)
  then show ?thesis
    using s(2) p(2) d' by (auto simp: isValidStatus_def isValidPriority_def)
qed

lemma cast_source:
  "(k, v) \<in> set (concat (rights (map castUpdate u))) \<Longrightarrow>
     \<exists>v0. (k, v0) \<in> set u \<and> castUpdate (k, v0) = Inr [(k, v)]"
proof (induction u)
  case Nil
  then show ?case by (simp add: rights_def)
next
  case (Cons kv u)
  obtain k0 v0 where kv: "kv = (k0, v0)" by (cases kv)
  show ?case
  proof (cases "castUpdate (k0, v0)")
    case (Inl a)
    then have "(k, v) \<in> set (concat (rights (map castUpdate u)))"
      using Cons.prems kv by (simp add: rights_Cons)
    then show ?thesis using Cons.IH by auto
  next
    case (Inr kvs)
    then have shape: "kvs = [] \<or> (\<exists>v'. kvs = [(k0, v')])" by (rule castUpdate_Inr)
    have "(k, v) \<in> set kvs \<or> (k, v) \<in> set (concat (rights (map castUpdate u)))"
      using Cons.prems kv Inr by (simp add: rights_Cons)
    then show ?thesis
    proof
      assume "(k, v) \<in> set kvs"
      then have "kvs = [(k, v)]" "k0 = k" using shape by auto
      then show ?thesis using Inr kv by auto
    next
      assume "(k, v) \<in> set (concat (rights (map castUpdate u)))"
      then show ?thesis using Cons.IH by auto
    qed
  qed
qed

lemma updateFailures_Nil:
  assumes "updateFailures sets = []" and "(k, v) \<in> set sets" and "map_of bugSchema k = Some sch"
  shows "validatePath k sch v = None"
proof (rule ccontr)
  assume "validatePath k sch v \<noteq> None"
  then obtain m where "validatePath k sch v = Some m" by blast
  then have "\<exists>kv\<in>set sets.
      (case map_of bugSchema (fst kv) of
         None \<Rightarrow> []
       | Some sch \<Rightarrow> (case validatePath (fst kv) sch (snd kv) of None \<Rightarrow> [] | Some m \<Rightarrow> [(fst kv, m)]))
      \<noteq> []"
    using assms(2,3) by (intro bexI [of _ "(k, v)"]) (auto split: option.splits)
  then show False using assms(1) unfolding updateFailures_def by simp
qed

lemma castUpdate_enum_value:
  assumes "castUpdate (k, v0) = Inr [(k, v)]" and "truthy v0"
      and "k = ''status'' \<or> k = ''priority''"
  shows "\<exists>s. v = JStr s"
proof -
  have "v0 \<noteq> JUndefined" using assms(2) by auto
  then obtain sch v' where "castString v0 = Some v'" "v = applySetters sch v'" "\<not> sp_trim sch"
    using assms(1,3)
    by (elim disjE)
       (auto simp: castUpdate_def bugSchema_def stringPath_def split: option.splits)
  then show ?thesis
    using castString_truthy [OF assms(2)] by (auto simp: applySetters_def)
qed

lemma set_value_enum:
  assumes mem: "(k, v) \<in> set (concat (rights (map castUpdate (updates b))))"
      and ok: "updateFailures (concat (rights (map castUpdate (updates b)))) = []"
  shows "(k = ''status'' \<longrightarrow> isValidStatus v) \<and> (k = ''priority'' \<longrightarrow> isValidPriority v)"
proof (cases "k = ''status'' \<or> k = ''priority''")
  case False
  then show ?thesis by simp
next
  case True
  obtain v0 where v0: "(k, v0) \<in> set (updates b)" "castUpdate (k, v0) = Inr [(k, v)]"
    using cast_source [OF mem] by blast
  have "truthy v0"
    using v0(1) True by (auto simp: updates_member)
  then obtain s where s: "v = JStr s"
    using castUpdate_enum_value [OF v0(2) _ True] by blast
  show ?thesis
  proof (cases "k = ''status''")
    case True
    have "validatePath k (stringPath\<lparr>sp_enum := Some [''open'', ''in-progress'', ''resolved'', ''closed''],
                           sp_default := JStr ''open''\<rparr>) v = None"
      using True by (intro updateFailures_Nil [OF ok mem]) (simp add: bugSchema_def)
    then have "s \<in> set [''open'', ''in-progress'', ''resolved'', ''closed'']"
      unfolding s by (rule validatePath_enum) (simp add: stringPath_def)
    then show ?thesis using True s by (auto simp: isValidStatus_def)
  next
    case False
    then have k: "k = ''priority''" using \<open>k = ''status'' \<or> k = ''priority''\<close> by simp
    have "validatePath k (stringPath\<lparr>sp_enum := Some [''low'', ''medium'', ''high'', ''critical''],
                             sp_default := JStr ''medium''\<rparr>) v = None"
      using k by (intro updateFailures_Nil [OF ok mem]) (simp add: bugSchema_def)
    then have "s \<in> set [''low'', ''medium'', ''high'', ''critical'']"
      unfolding s by (rule validatePath_enum) (simp add: stringPath_def)
    then show ?thesis using k s by (auto simp: isValidPriority_def)
  qed
qed

lemma applySets_cases:
  assumes "distinct (map fst sets)"
  shows "k \<notin> fst ` set sets \<and> getProp (applySets sets doc) k = getProp doc k
       \<or> (\<exists>v. (k, v) \<in> set sets \<and> getProp (applySets sets doc) k = v)"
proof (cases "k \<in> fst ` set sets")
  case False
  then show ?thesis using applySets_other [of k sets doc] by simp
next
  case True
  then obtain v where "(k, v) \<in> set sets" by auto
  then show ?thesis using applySets_member [OF assms, of k v doc] by blast
qed

lemma updated_doc_enums:
  assumes ok: "updateFailures (concat (rights (map castUpdate (updates b)))) = []"
      and old: "isValidStatus (getProp doc ''status'') \<and> isValidPriority (getProp doc ''priority'')"
  shows "isValidStatus (getProp (setProp (applySets (concat (rights (map castUpdate (updates b)))) doc)
                                   ''updatedAt'' t) ''status'')
       \<and> isValidPriority (getProp (setProp (applySets (concat (rights (map castUpdate (updates b)))) doc)
                                      ''updatedAt'' t) ''priority'')"
proof -
  let ?sets = "concat (rights (map castUpdate (updates b)))"
  have dist: "distinct (map fst ?sets)"
    by (intro cast_distinct updates_distinct)
  have "isValidStatus (getProp (applySets ?sets doc) ''status'')"
    using applySets_cases [OF dist, of "''status''" doc] set_value_enum [OF _ ok] old by auto
  moreover have "isValidPriority (getProp (applySets ?sets doc) ''priority'')"
    using applySets_cases [OF dist, of "''priority''" doc] set_value_enum [OF _ ok] old by auto
  ultimately show ?thesis by (simp add: getProp_setProp)
qed

lemma list_all_replaceFirst:
  "list_all V xs \<Longrightarrow> V y \<Longrightarrow> list_all V (replaceFirst P y xs)"
  by (induction xs) auto

lemma list_all_removeFirst:
  "list_all V xs \<Longrightarrow> list_all V (removeFirst P xs)"
  by (induction xs) auto

lemma find_list_all: "find P xs = Some x \<Longrightarrow> list_all V xs \<Longrightarrow> V x"
  by (induction xs) (auto split: if_splits)

lemma findByIdAndUpdate_result:
  assumes "Bug_findByIdAndUpdate e n i u \<lparr>opt_new = True, opt_runValidators = True\<rparr> d = (r, d')"
  shows "d' = d
       \<or> (\<exists>oid doc. find (hasId oid) d = Some doc
             \<and> updateFailures (concat (rights (map castUpdate u))) = []
             \<and> d' = replaceFirst (hasId oid)
                   (setProp (applySets (concat (rights (map castUpdate u))) doc)
                      ''updatedAt'' (JNum (now e))) d)"
proof (cases "castObjectId i")
  case None
  then show ?thesis using assms by (simp add: Bug_findByIdAndUpdate_def)
next
  case (Some oid)
  show ?thesis
  proof (cases "lefts (map castUpdate u)")
    case (Cons p ps)
    then show ?thesis using assms Some by (simp add: Bug_findByIdAndUpdate_def)
  next
    case Nil
    show ?thesis
    proof (cases "updateFailures (concat (rights (map castUpdate u))) = []")
      case False
      then show ?thesis using assms Some Nil by (simp add: Bug_findByIdAndUpdate_def)
    next
      case True
      show ?thesis
      proof (cases "faults e n")
        case (Some err)
        then show ?thesis
          using assms \<open>castObjectId i = Some oid\<close> Nil True by (simp add: Bug_findByIdAndUpdate_def)
      next
        case nf: None
        show ?thesis
        proof (cases "find (hasId oid) d")
          case None
          then show ?thesis
            using assms nf Some Nil True by (simp add: Bug_findByIdAndUpdate_def)
        next
          case (Some doc)
          then have "d' = replaceFirst (hasId oid)
                   (setProp (applySets (concat (rights (map castUpdate u))) doc)
                      ''updatedAt'' (JNum (now e))) d"
            using assms nf \<open>castObjectId i = Some oid\<close> Nil True
            by (auto simp: Bug_findByIdAndUpdate_def Let_def)
          then show ?thesis using Some True by blast
        qed
      qed
    qed
  qed
qed

lemma controllers_keep_enums:
  assumes "list_all (\<lambda>doc. isValidStatus (getProp doc ''status'')
                        \<and> isValidPriority (getProp doc ''priority'')) d"
  shows "list_all (\<lambda>doc. isValidStatus (getProp doc ''status'')
                        \<and> isValidPriority (getProp doc ''priority'')) (snd (getAllBugs req e d))"
    and "list_all (\<lambda>doc. isValidStatus (getProp doc ''status'')
                        \<and> isValidPriority (getProp doc ''priority'')) (snd (getBugById req e d))"
    and "list_all (\<lambda>doc. isValidStatus (getProp doc ''status'')
                        \<and> isValidPriority (getProp doc ''priority'')) (snd (getBugStats req e d))"
    and "list_all (\<lambda>doc. isValidStatus (getProp doc ''status'')
                        \<and> isValidPriority (getProp doc ''priority'')) (snd (deleteBug req e d))"
    and "list_all (\<lambda>doc. isValidStatus (getProp doc ''status'')
                        \<and> isValidPriority (getProp doc ''priority'')) (snd (createBug req e d))"
    and "list_all (\<lambda>doc. isValidStatus (getProp doc ''status'')
                        \<and> isValidPriority (getProp doc ''priority'')) (snd (updateBug req e d))"
proof -
  let ?V = "\<lambda>doc. isValidStatus (getProp doc ''status'') \<and> isValidPriority (getProp doc ''priority'')"
  show "list_all ?V (snd (getAllBugs req e d))"
    using assms by (simp add: getAllBugs_def Let_def split: sum.splits)
  show "list_all ?V (snd (getBugById req e d))"
    using assms by (simp add: getBugById_def split: sum.splits option.splits)
  show "list_all ?V (snd (getBugStats req e d))"
    using assms by (simp add: getBugStats_def split: sum.splits)
  show "list_all ?V (snd (deleteBug req e d))"
    using assms list_all_removeFirst [of ?V d]
    by (auto simp: deleteBug_def Bug_findByIdAndDelete_def split: sum.splits option.splits)
  show "list_all ?V (snd (createBug req e d))"
  proof (cases "Bug_create e 0 (bugData (req_body req)) d")
    case (Pair r d')
    show ?thesis
    proof (cases r)
      case (Inl err)
      then have "d' = d" using Pair Bug_create_Inl by blast
      then show ?thesis using assms Pair Inl by (simp add: createBug_def)
    next
      case (Inr doc)
      then show ?thesis
        using created_doc_enums [of e 0 "req_body req" d doc d'] assms Pair
        by (simp add: createBug_def)
    qed
  qed
  show "list_all ?V (snd (updateBug req e d))"
  proof (cases "Bug_findById e 0 (getProp (req_params req) ''id'') d")
    case (Inl err)
    then show ?thesis using assms by (simp add: updateBug_def)
  next
    case (Inr found)
    show ?thesis
    proof (cases found)
      case None
      then show ?thesis using assms Inr by (simp add: updateBug_def)
    next
      case (Some bug)
      obtain r d' where u: "Bug_findByIdAndUpdate e 1 (getProp (req_params req) ''id'')
          (updates (req_body req)) \<lparr>opt_new = True, opt_runValidators = True\<rparr> d = (r, d')"
        by (cases "Bug_findByIdAndUpdate e 1 (getProp (req_params req) ''id'')
          (updates (req_body req)) \<lparr>opt_new = True, opt_runValidators = True\<rparr> d") auto
      have "list_all ?V d'"
        using findByIdAndUpdate_result [OF u]
      proof
        assume "d' = d"
        then show ?thesis using assms by simp
      next
        assume "\<exists>oid doc. find (hasId oid) d = Some doc
             \<and> updateFailures (concat (rights (map castUpdate (updates (req_body req))))) = []
             \<and> d' = replaceFirst (hasId oid)
                   (setProp (applySets (concat (rights (map castUpdate (updates (req_body req))))) doc)
                      ''updatedAt'' (JNum (now e))) d"
        then obtain oid doc where f: "find (hasId oid) d = Some doc"
          and ok: "updateFailures (concat (rights (map castUpdate (updates (req_body req))))) = []"
          and d': "d' = replaceFirst (hasId oid)
                   (setProp (applySets (concat (rights (map castUpdate (updates (req_body req))))) doc)
                      ''updatedAt'' (JNum (now e))) d"
          by blast
        have "?V doc" using find_list_all [OF f, of ?V] assms by simp
        then have "?V (setProp (applySets (concat (rights (map castUpdate (updates (req_body req))))) doc)
                      ''updatedAt'' (JNum (now e)))"
          using updated_doc_enums [OF ok] by blast
        then show ?thesis unfolding d' using assms by (intro list_all_replaceFirst)
      qed
      moreover have "snd (updateBug req e d) = d'"
        unfolding updateBug_def Inr Some u
        by (simp split: sum.splits option.splits)
      ultimately show ?thesis by simp
    qed
  qed
qed

text \<open>
  Every request to a route of the router keeps the collection within the enumerations: if
  each stored record has a status and a priority of the enumerations before the request,
  so has each stored record after it. The empty collection has the property.
\<close>

lemma routes_keep_enums:
  assumes "r \<in> set bugRoutes"
      and "list_all (\<lambda>doc. isValidStatus (getProp doc ''status'')
                          \<and> isValidPriority (getProp doc ''priority'')) d"
  shows "list_all (\<lambda>doc. isValidStatus (getProp doc ''status'')
                        \<and> isValidPriority (getProp doc ''priority'')) (snd (runRoute r req e d))"
proof -
  have h: "handler r \<in> {getBugStats, getAllBugs, createBug, getBugById, updateBug, deleteBug}"
    using assms(1) by (auto simp: bugRoutes_def route_defs)
  have "list_all (\<lambda>doc. isValidStatus (getProp doc ''status'')
                       \<and> isValidPriority (getProp doc ''priority'')) (snd (handler r req' e d))" for req'
    using h controllers_keep_enums [OF assms(2)] by auto
  then show ?thesis
    using assms(2) by (auto simp: runRoute_def split: prod.splits option.splits)
qed

section \<open>The list operation\<close>






lemma lefts_append: "lefts (xs @ ys) = lefts xs @ lefts ys"
  by (simp add: lefts_def)



text \<open>On a document whose field is a string, the condition is equality with the string.\<close>

lemma fieldIs_string: "getProp doc k = JStr t \<Longrightarrow> fieldIs k s doc \<longleftrightarrow> getProp doc k = JStr s"
  by (auto simp: fieldIs_def)















end
